theory Spec2Isabelle
  imports Complex_Main
begin

section \<open>Constants (js/utils/Constants.js)\<close>

text \<open>
  The string enumerations of Constants.js are datatypes; \<open>CARD_INFO\<close> is the table
  indexed by card type. Its \<open>icon\<close> entries are emoji used by the renderer only and are
  left out. Numbers are JavaScript numbers that only ever hold integers here (scores,
  positions, timestamps), so they are \<open>int\<close>.
\<close>

datatype card_type = rock | paper | scissors

record card_info =
  name :: string
  defeats :: card_type
  defeatedBy :: card_type

fun CARD_INFO :: "card_type \<Rightarrow> card_info" where
  "CARD_INFO rock = \<lparr>name = ''Rock'', defeats = scissors, defeatedBy = paper\<rparr>"
| "CARD_INFO paper = \<lparr>name = ''Paper'', defeats = rock, defeatedBy = scissors\<rparr>"
| "CARD_INFO scissors = \<lparr>name = ''Scissors'', defeats = paper, defeatedBy = rock\<rparr>"

definition GRID_WIDTH :: nat where "GRID_WIDTH = 5"
definition GRID_HEIGHT :: nat where "GRID_HEIGHT = 3"
definition TOTAL_POSITIONS :: int where "TOTAL_POSITIONS = 15"
definition VICTORY_POINTS :: int where "VICTORY_POINTS = 10"
definition MIN_VICTORY_LEAD :: int where "MIN_VICTORY_LEAD = 1"

definition ADVANCEMENT :: int where "ADVANCEMENT = 1"
definition CONTROL :: int where "CONTROL = 1"
definition BATTLE_WIN :: int where "BATTLE_WIN = 1"
definition CHALLENGE_PENALTY :: int where "CHALLENGE_PENALTY = 1"

datatype challenge_result = SUCCESSFUL | FAILED | TRUTHFUL

datatype position_state = EMPTY | OCCUPIED | POS_SELECTED | HIGHLIGHTED

datatype card_state = IN_HAND | SELECTED | PLACED | REVEALED

datatype player_type = HUMAN | AI

section \<open>Objects and references\<close>

text \<open>
  Cards and players are mutable objects that several owners point to (the grid slot, the
  player's hand, the pending play), so they live in a store and are named by references;
  \<open>===\<close> on objects is equality of references.
\<close>

type_synonym cref = nat
type_synonym pref = nat

subsection \<open>Card (js/core/Card.js)\<close>

record battle_record =
  br_timestamp :: int
  br_opponent :: string
  br_opponentType :: card_type
  br_result :: string
  br_position :: "int option"
  br_opponentPosition :: "int option"

record card =
  card_id :: string
  c_type :: card_type
  state :: card_state
  claimedType :: "card_type option"
  owner :: "pref option"
  position :: "int option"
  isRevealed :: bool
  battleHistory :: "battle_record list"
  createdAt :: int
  placedAt :: "int option"
  revealedAt :: "int option"

datatype error = Error string | TypeError

text \<open>\<open>Card.place(position)\<close>; \<open>now\<close> is the value of \<open>Date.now()\<close>.\<close>

definition place :: "int \<Rightarrow> int \<Rightarrow> card \<Rightarrow> error + card" where
  "place now pos c =
     (if pos < 0 \<or> pos \<ge> TOTAL_POSITIONS then Inl (Error ''Invalid grid position'')
      else Inr (c\<lparr>position := Some pos, state := PLACED, placedAt := Some now\<rparr>))"

text \<open>\<open>Card.reveal()\<close>\<close>

definition reveal :: "int \<Rightarrow> card \<Rightarrow> card" where
  "reveal now c = c\<lparr>isRevealed := True, state := REVEALED, revealedAt := Some now\<rparr>"

text \<open>\<open>Card.isBluffing()\<close>\<close>

definition isBluffing :: "card \<Rightarrow> bool" where
  "isBluffing c = (claimedType c \<noteq> None \<and> claimedType c \<noteq> Some (c_type c))"

subsection \<open>Player (Player class)\<close>

record stats =
  gamesPlayed :: int
  gamesWon :: int
  roundsWon :: int
  cardsPlayed :: int
  bluffsAttempted :: int
  bluffsSuccessful :: int
  challengesMade :: int
  challengesSuccessful :: int
  battlesWon :: int
  battlesLost :: int
  totalPoints :: int
  truthfulPlays :: "int option"

text \<open>
  \<open>truthfulPlays\<close> is not set by the constructor: it is \<open>undefined\<close> (\<open>None\<close>) until
  the first truthful defence. The entries of \<open>recentActions\<close> are the two kinds of
  action data that the challenge protocol passes to \<open>updateBehaviorProfile\<close>.
\<close>

datatype action_data =
    ChallengeMade (ad_opponent: string) (ad_wasCorrect: bool)
      (ad_challengedCard: card_type) (ad_claimed: "card_type option")
  | ChallengeReceived (ad_challenger: string) (ad_wasBluff: bool)
      (ad_cardType: card_type) (ad_claimed: "card_type option")
      (ad_challengeResult: challenge_result)

record action =
  a_data :: action_data
  a_timestamp :: int

record behavior_profile =
  bluffingFrequency :: rat
  challengingFrequency :: rat
  cardTypePreferences :: "(card_type \<times> int) list"
  positionPreferences :: "(int \<times> int) list"
  recentActions :: "action list"

record player =
  player_id :: string
  player_name :: string
  p_type :: player_type
  score :: int
  hand :: "cref list"
  placedCards :: "cref list"
  selectedCard :: "cref option"
  isActive :: bool
  stats :: stats
  behaviorProfile :: behavior_profile
  p_createdAt :: int

text \<open>\<open>Player.hasWon(opponent)\<close>\<close>

definition hasWon :: "player \<Rightarrow> player \<Rightarrow> bool" where
  "hasWon this opponent =
     (score this \<ge> VICTORY_POINTS \<and> score this \<ge> score opponent + MIN_VICTORY_LEAD)"

text \<open>
  \<open>Player.updateBehaviorProfile(actionType, actionData)\<close>, for the action types
  \<open>"challengeMade"\<close> and \<open>"challengeReceived"\<close>. The new entry is pushed, the oldest one is
  shifted out once there are more than 20, and only \<open>"challengeMade"\<close> has a case in the
  \<open>switch\<close>: it recomputes \<open>challengingFrequency\<close>, a quotient of integers with a
  denominator of at least 1 (taken exactly here, a double in the program).
\<close>

definition updateBehaviorProfile :: "int \<Rightarrow> action_data \<Rightarrow> player \<Rightarrow> player" where
  "updateBehaviorProfile now actionData this =
     (let bp = behaviorProfile this;
          pushed = recentActions bp @ [\<lparr>a_data = actionData, a_timestamp = now\<rparr>];
          kept = (if length pushed > 20 then tl pushed else pushed);
          bp1 = bp\<lparr>recentActions := kept\<rparr>;
          bp2 = (case actionData of
                   ChallengeMade _ _ _ _ \<Rightarrow>
                     bp1\<lparr>challengingFrequency :=
                           of_int (challengesMade (stats this))
                             / of_int (max 1 (cardsPlayed (stats this)))\<rparr>
                 | ChallengeReceived _ _ _ _ _ \<Rightarrow> bp1)
      in this\<lparr>behaviorProfile := bp2\<rparr>)"

subsection \<open>The store and the notification channel\<close>

text \<open>
  A pending play of the challenge protocol and the result of a processed challenge: both
  travel in notifications, so they are declared here.
\<close>

record play =
  play_card :: cref
  play_player :: pref
  play_claimedType :: "card_type option"
  play_actualType :: card_type
  play_position :: int
  play_timestamp :: int
  challengeable :: bool

record challenge_outcome =
  co_result :: challenge_result
  co_wasBluff :: bool
  co_explanation :: string
  co_pointsChanged :: int
  co_cardRevealed :: bool
  co_challenger :: pref
  co_defendingPlayer :: pref
  co_card :: cref

text \<open>
  \<open>eventBus.emit(type, payload)\<close> is recorded as one entry of the list \<open>emitted\<close>; what
  the listeners of the presentation layer do with it is outside the rule engine. Payloads
  that are object references in the program are the reference (players, cards) or the
  value at the time of the emission (the pending play).
\<close>

datatype event =
    SCORE_UPDATE pref int int int
  | CHALLENGE_WINDOW_OPEN play int
  | CHALLENGE_WINDOW_CLOSED "play option"
  | CHALLENGE_MADE pref pref challenge_outcome
  | UI_UPDATE string cref int

text \<open>
  The store: the player and card objects, the notifications emitted so far, and the
  timers the host has pending (\<open>setTimeout\<close> hands out fresh handles, \<open>clearTimeout\<close>
  removes one). Console output under \<open>DEBUG.ENABLED\<close> is diagnostic and not part of the
  store.
\<close>

record heap =
  players :: "pref \<Rightarrow> player"
  cards :: "cref \<Rightarrow> card"
  emitted :: "event list"
  timers :: "nat list"
  nextTimer :: nat

definition emit :: "event \<Rightarrow> heap \<Rightarrow> heap" where
  "emit e h = h\<lparr>emitted := emitted h @ [e]\<rparr>"

definition setTimeout :: "heap \<Rightarrow> nat \<times> heap" where
  "setTimeout h = (nextTimer h, h\<lparr>timers := timers h @ [nextTimer h], nextTimer := Suc (nextTimer h)\<rparr>)"

definition clearTimeout :: "nat \<Rightarrow> heap \<Rightarrow> heap" where
  "clearTimeout t h = h\<lparr>timers := removeAll t (timers h)\<rparr>"

text \<open>\<open>Player.addScore(points)\<close> on the player object \<open>p\<close>\<close>

definition addScore :: "pref \<Rightarrow> int \<Rightarrow> heap \<Rightarrow> heap" where
  "addScore p points h =
     (let this = players h p;
          oldScore = score this;
          this1 = this\<lparr>score := max 0 (score this + points)\<rparr>;
          this2 = (if points > 0
                   then this1\<lparr>stats := (stats this1)\<lparr>totalPoints := totalPoints (stats this1) + points\<rparr>\<rparr>
                   else this1)
      in emit (SCORE_UPDATE p oldScore (score this2) points)
           (h\<lparr>players := (players h)(p := this2)\<rparr>))"

text \<open>
  A sequence of \<open>addScore\<close> calls, each on some player with some amount; the result lists
  the store after every call.
\<close>

fun addScores :: "(pref \<times> int) list \<Rightarrow> heap \<Rightarrow> heap list" where
  "addScores [] h = []"
| "addScores ((p, points) # calls) h = addScore p points h # addScores calls (addScore p points h)"

subsection \<open>Objects as the constructors leave them\<close>

text \<open>\<open>new Card(type, id)\<close> and \<open>new Player(id, name, type)\<close> at time \<open>now\<close>\<close>

definition Card_new :: "card_type \<Rightarrow> string \<Rightarrow> int \<Rightarrow> card" where
  "Card_new t i now =
     \<lparr>card_id = i, c_type = t, state = IN_HAND, claimedType = None, owner = None,
      position = None, isRevealed = False, battleHistory = [], createdAt = now,
      placedAt = None, revealedAt = None\<rparr>"

definition Player_new :: "string \<Rightarrow> string \<Rightarrow> player_type \<Rightarrow> int \<Rightarrow> player" where
  "Player_new i n t now =
     \<lparr>player_id = i, player_name = n, p_type = t, score = 0, hand = [], placedCards = [],
      selectedCard = None, isActive = False,
      stats = \<lparr>gamesPlayed = 0, gamesWon = 0, roundsWon = 0, cardsPlayed = 0,
               bluffsAttempted = 0, bluffsSuccessful = 0, challengesMade = 0,
               challengesSuccessful = 0, battlesWon = 0, battlesLost = 0, totalPoints = 0,
               truthfulPlays = None\<rparr>,
      behaviorProfile = \<lparr>bluffingFrequency = 0, challengingFrequency = 0,
               cardTypePreferences = [], positionPreferences = [], recentActions = []\<rparr>,
      p_createdAt = now\<rparr>"

text \<open>
  A match at its start: player 0 is the human, every other reference an AI player; card
  references 0, 1, 2 modulo 3 are a rock, a paper and a scissors card; nothing emitted, no
  timer pending.
\<close>

definition heap0 :: heap where
  "heap0 =
     \<lparr>players = (\<lambda>p. if p = 0 then Player_new ''human'' ''You'' HUMAN 0
                       else Player_new ''ai'' ''AI'' AI 0),
      cards = (\<lambda>c. Card_new (if c mod 3 = 0 then rock else if c mod 3 = 1 then paper else scissors)
                       ''card'' 0),
      emitted = [], timers = [], nextTimer = 1\<rparr>"

section \<open>Battle resolution (js/systems/BattleSystem.js)\<close>

datatype battle_outcome = tie | card1_wins | card2_wins

record battle_verdict =
  outcome :: battle_outcome
  explanation :: string

text \<open>\<open>BattleSystem.determineBattleOutcome(card1, card2)\<close>: reads the two cards only.\<close>

definition determineBattleOutcome :: "card \<Rightarrow> card \<Rightarrow> battle_verdict" where
  "determineBattleOutcome card1 card2 =
     (let type1 = c_type card1; type2 = c_type card2 in
      if type1 = type2 then
        \<lparr>outcome = tie,
         explanation = ''Both cards are '' @ name (CARD_INFO type1) @ '' - tie!''\<rparr>
      else if defeats (CARD_INFO type1) = type2 then
        \<lparr>outcome = card1_wins,
         explanation = name (CARD_INFO type1) @ '' defeats '' @ name (CARD_INFO type2)\<rparr>
      else
        \<lparr>outcome = card2_wins,
         explanation = name (CARD_INFO type2) @ '' defeats '' @ name (CARD_INFO type1)\<rparr>)"

section \<open>Grid (js/systems/GridSystem.js)\<close>

record change =
  ch_action :: string
  ch_position :: int
  ch_cardId :: "string option"
  ch_timestamp :: int

record grid_system =
  width :: nat
  height :: nat
  totalPositions :: nat
  grid :: "cref option list"
  positionStates :: "position_state list"
  lastModified :: int
  changeHistory :: "change list"

text \<open>\<open>new GridSystem(width, height)\<close> at time \<open>now\<close>\<close>

definition GridSystem_new :: "nat \<Rightarrow> nat \<Rightarrow> int \<Rightarrow> grid_system" where
  "GridSystem_new w h now =
     \<lparr>width = w, height = h, totalPositions = w * h,
      grid = replicate (w * h) None, positionStates = replicate (w * h) EMPTY,
      lastModified = now, changeHistory = []\<rparr>"

text \<open>
  What the constructor establishes and no method changes: the two arrays have
  \<open>totalPositions = width * height\<close> slots. Every position that passes a range check
  against \<open>totalPositions\<close> is therefore an index inside both arrays.
\<close>

definition grid_inv :: "grid_system \<Rightarrow> bool" where
  "grid_inv g =
     (totalPositions g = width g * height g
      \<and> length (grid g) = totalPositions g
      \<and> length (positionStates g) = totalPositions g)"

record coords =
  row :: int
  col :: int

text \<open>\<open>positionToCoords(position)\<close>: \<open>Math.floor(position / width)\<close> and \<open>position % width\<close>\<close>

definition positionToCoords :: "grid_system \<Rightarrow> int \<Rightarrow> error + coords" where
  "positionToCoords g pos =
     (if pos < 0 \<or> pos \<ge> int (totalPositions g) then Inl (Error ''Invalid position'')
      else Inr \<lparr>row = pos div int (width g), col = pos mod int (width g)\<rparr>)"

text \<open>\<open>getCardAt(position)\<close>\<close>

definition getCardAt :: "grid_system \<Rightarrow> int \<Rightarrow> cref option" where
  "getCardAt g pos =
     (if pos < 0 \<or> pos \<ge> int (totalPositions g) then None else grid g ! nat pos)"

text \<open>\<open>isPositionAvailable(position)\<close>\<close>

definition isPositionAvailable :: "grid_system \<Rightarrow> int \<Rightarrow> bool" where
  "isPositionAvailable g pos =
     (pos \<ge> 0 \<and> pos < int (totalPositions g) \<and> grid g ! nat pos = None)"

text \<open>\<open>getPositionState(position)\<close>\<close>

definition getPositionState :: "grid_system \<Rightarrow> int \<Rightarrow> position_state" where
  "getPositionState g pos =
     (if pos \<ge> 0 \<and> pos < int (totalPositions g) then positionStates g ! nat pos else EMPTY)"

text \<open>
  \<open>recordChange(action, position, card)\<close>: the entry holds the card's id, read from the
  store; the history keeps its last 100 entries.
\<close>

definition recordChange ::
  "int \<Rightarrow> string \<Rightarrow> int \<Rightarrow> cref option \<Rightarrow> heap \<Rightarrow> grid_system \<Rightarrow> grid_system" where
  "recordChange now action pos c h g =
     (let entry = \<lparr>ch_action = action, ch_position = pos,
                    ch_cardId = map_option (\<lambda>r. card_id (cards h r)) c,
                    ch_timestamp = now\<rparr>;
          pushed = changeHistory g @ [entry]
      in g\<lparr>changeHistory := (if length pushed > 100 then tl pushed else pushed),
           lastModified := now\<rparr>)"

text \<open>
  \<open>placeCard(card, position)\<close>. The argument is \<open>None\<close> when it is not a \<open>Card\<close>
  instance. A method returns its value or the error it throws, together with the grid and
  the store as they are at that moment: \<open>Card.place\<close> checks the position against the
  constant \<open>TOTAL_POSITIONS\<close>, after the slot has been written.
\<close>

definition placeCard ::
  "int \<Rightarrow> cref option \<Rightarrow> int \<Rightarrow> grid_system \<times> heap \<Rightarrow> (error + bool) \<times> grid_system \<times> heap" where
  "placeCard now card_arg pos s =
     (case s of (g, h) \<Rightarrow>
      (case card_arg of
         None \<Rightarrow> (Inl (Error ''Invalid card instance''), g, h)
       | Some c \<Rightarrow>
           if \<not> isPositionAvailable g pos then (Inl (Error ''Position is not available''), g, h)
           else
             let g1 = g\<lparr>grid := (grid g)[nat pos := Some c],
                        positionStates := (positionStates g)[nat pos := OCCUPIED]\<rparr>
             in (case place now pos (cards h c) of
                   Inl e \<Rightarrow> (Inl e, g1, h)
                 | Inr placed \<Rightarrow>
                     let h1 = h\<lparr>cards := (cards h)(c := placed)\<rparr>;
                         g2 = recordChange now ''place'' pos (Some c) h1 g1
                     in (Inr True, g2, emit (UI_UPDATE ''card_placed'' c pos) h1))))"

text \<open>\<open>removeCard(position)\<close>\<close>

definition removeCard ::
  "int \<Rightarrow> int \<Rightarrow> grid_system \<times> heap \<Rightarrow> (error + cref option) \<times> grid_system \<times> heap" where
  "removeCard now pos s =
     (case s of (g, h) \<Rightarrow>
      if pos < 0 \<or> pos \<ge> int (totalPositions g) then (Inl (Error ''Invalid position''), g, h)
      else
        (case grid g ! nat pos of
           None \<Rightarrow> (Inr None, g, h)
         | Some c \<Rightarrow>
             let g1 = g\<lparr>grid := (grid g)[nat pos := None],
                        positionStates := (positionStates g)[nat pos := EMPTY]\<rparr>;
                 g2 = recordChange now ''remove'' pos (Some c) h g1
             in (Inr (Some c), g2, emit (UI_UPDATE ''card_removed'' c pos) h)))"

record battle =
  position1 :: int
  card1 :: cref
  position2 :: int
  card2 :: cref
  b_type :: string

text \<open>
  \<open>getBattlePairs()\<close>: the \<open>for\<close> loop over \<open>position\<close>, with the array \<open>battles\<close> built
  so far. \<open>positionToCoords\<close> is called in every round, and an error it throws ends the
  loop.
\<close>

function getBattlePairs_loop :: "grid_system \<Rightarrow> nat \<Rightarrow> battle list \<Rightarrow> error + battle list" where
  "getBattlePairs_loop g pos battles =
     (if int pos < int (totalPositions g) - 1 then
        (let currentCard = getCardAt g (int pos);
             nextCard = getCardAt g (int pos + 1)
         in case positionToCoords g (int pos) of
              Inl e \<Rightarrow> Inl e
            | Inr currentCoords \<Rightarrow>
                (case positionToCoords g (int pos + 1) of
                   Inl e \<Rightarrow> Inl e
                 | Inr nextCoords \<Rightarrow>
                     getBattlePairs_loop g (Suc pos)
                       (case (currentCard, nextCard) of
                          (Some c1, Some c2) \<Rightarrow>
                            if row currentCoords = row nextCoords
                               \<and> col nextCoords = col currentCoords + 1
                            then battles @ [\<lparr>position1 = int pos, card1 = c1,
                                             position2 = int pos + 1, card2 = c2,
                                             b_type = ''horizontal''\<rparr>]
                            else battles
                        | _ \<Rightarrow> battles)))
      else Inr battles)"
  by pat_completeness auto
termination
  by (relation "measure (\<lambda>(g, pos, battles). totalPositions g - pos)") auto

declare getBattlePairs_loop.simps [simp del]

definition getBattlePairs :: "grid_system \<Rightarrow> error + battle list" where
  "getBattlePairs g = getBattlePairs_loop g 0 []"

text \<open>
  \<open>BattleSystem.identifyBattles()\<close> on the battle system's grid: the same walk, pushing
  onto \<open>battleQueue\<close>; here the coordinates are computed only when both slots hold a
  card.
\<close>

function identifyBattles_loop :: "grid_system \<Rightarrow> nat \<Rightarrow> battle list \<Rightarrow> error + battle list" where
  "identifyBattles_loop g pos battleQueue =
     (if int pos < int (totalPositions g) - 1 then
        (case (getCardAt g (int pos), getCardAt g (int pos + 1)) of
           (Some c1, Some c2) \<Rightarrow>
             (case positionToCoords g (int pos) of
                Inl e \<Rightarrow> Inl e
              | Inr coords1 \<Rightarrow>
                  (case positionToCoords g (int pos + 1) of
                     Inl e \<Rightarrow> Inl e
                   | Inr coords2 \<Rightarrow>
                       identifyBattles_loop g (Suc pos)
                         (if row coords1 = row coords2 \<and> col coords2 = col coords1 + 1
                          then battleQueue @ [\<lparr>position1 = int pos, card1 = c1,
                                                 position2 = int pos + 1, card2 = c2,
                                                 b_type = ''horizontal''\<rparr>]
                          else battleQueue)))
         | _ \<Rightarrow> identifyBattles_loop g (Suc pos) battleQueue)
      else Inr battleQueue)"
  by pat_completeness auto
termination
  by (relation "measure (\<lambda>(g, pos, battleQueue). totalPositions g - pos)") auto

declare identifyBattles_loop.simps [simp del]

definition identifyBattles :: "grid_system \<Rightarrow> battle list \<Rightarrow> error + battle list" where
  "identifyBattles g battleQueue = identifyBattles_loop g 0 battleQueue"

text \<open>
  The enumeration in the words of the specification: the positions \<open>p\<close> from 0 to
  \<open>N - 2\<close> in increasing order, keeping \<open>p\<close> when both slots \<open>p\<close> and \<open>p + 1\<close> hold a
  card, both positions lie in the same row and \<open>p + 1\<close> is in the next column, where the
  indexing is row-major (\<open>index = row * width + col\<close>).
\<close>

definition same_row :: "grid_system \<Rightarrow> nat \<Rightarrow> nat \<Rightarrow> bool" where
  "same_row g p q = (p div width g = q div width g)"

definition next_column :: "grid_system \<Rightarrow> nat \<Rightarrow> nat \<Rightarrow> bool" where
  "next_column g p q = (q mod width g = p mod width g + 1)"

definition pair_at :: "grid_system \<Rightarrow> nat \<Rightarrow> battle list" where
  "pair_at g p =
     (case (grid g ! p, grid g ! (p + 1)) of
        (Some c1, Some c2) \<Rightarrow>
          if same_row g p (p + 1) \<and> next_column g p (p + 1)
          then [\<lparr>position1 = int p, card1 = c1, position2 = int p + 1, card2 = c2,
                 b_type = ''horizontal''\<rparr>]
          else []
      | _ \<Rightarrow> [])"

definition battle_pairs_spec :: "grid_system \<Rightarrow> battle list" where
  "battle_pairs_spec g = concat (map (pair_at g) [0 ..< totalPositions g - 1])"

text \<open>
  A 5 by 3 grid with cards in slots 3, 4, 5 and 6: slots 4 and 5 are neighbours in the
  array and lie in different rows.
\<close>

definition grid_3456 :: grid_system where
  "grid_3456 =
     (GridSystem_new 5 3 0)
       \<lparr>grid := [None, None, None, Some 0, Some 1, Some 2, Some 3, None, None, None,
                 None, None, None, None, None],
        positionStates := [EMPTY, EMPTY, EMPTY, OCCUPIED, OCCUPIED, OCCUPIED, OCCUPIED, EMPTY,
                 EMPTY, EMPTY, EMPTY, EMPTY, EMPTY, EMPTY, EMPTY]\<rparr>"

text \<open>
  The empty 5 by 3 grid on which card 7 has been placed at position 8 at time 9, with
  the store after that.
\<close>

definition grid_after_place :: "grid_system \<times> heap" where
  "grid_after_place = snd (placeCard 9 (Some 7) 8 (GridSystem_new 5 3 0, heap0))"

section \<open>Challenge protocol (ChallengeSystem class)\<close>

record challenge_record =
  cr_challenger :: pref
  cr_defendingPlayer :: pref
  cr_card :: cref
  cr_claimedType :: "card_type option"
  cr_actualType :: card_type
  cr_result :: challenge_result
  cr_timestamp :: int
  cr_pointsChanged :: int

record challenge_system =
  pendingChallenges :: "play list"
  challengeHistory :: "challenge_record list"
  lastPlayedCard :: "play option"
  challengeTimeWindow :: int
  challengeTimer :: "nat option"

text \<open>\<open>new ChallengeSystem()\<close>\<close>

definition ChallengeSystem_new :: challenge_system where
  "ChallengeSystem_new =
     \<lparr>pendingChallenges = [], challengeHistory = [], lastPlayedCard = None,
      challengeTimeWindow = 5000, challengeTimer = None\<rparr>"

text \<open>What \<open>makeChallenge\<close> returns: \<open>{success, error, result}\<close>\<close>

record make_result =
  mr_success :: bool
  mr_error :: "string option"
  mr_result :: "challenge_outcome option"

definition updateStats :: "pref \<Rightarrow> (stats \<Rightarrow> stats) \<Rightarrow> heap \<Rightarrow> heap" where
  "updateStats p f h = h\<lparr>players := (players h)(p := (players h p)\<lparr>stats := f (stats (players h p))\<rparr>)\<rparr>"

text \<open>
  The block \<open>if (this.challengeTimer) { clearTimeout(this.challengeTimer);
  this.challengeTimer = null; }\<close> of \<open>makeChallenge\<close> and \<open>closeChallengeWindow\<close>. A
  timer handle is never falsy.
\<close>

definition clearChallengeTimer :: "challenge_system \<times> heap \<Rightarrow> challenge_system \<times> heap" where
  "clearChallengeTimer s =
     (case s of (cs, h) \<Rightarrow>
      (case challengeTimer cs of
         None \<Rightarrow> (cs, h)
       | Some t \<Rightarrow> (cs\<lparr>challengeTimer := None\<rparr>, clearTimeout t h)))"

text \<open>
  \<open>closeChallengeWindow()\<close>. \<open>EVENTS.CHALLENGE_WINDOW_CLOSED\<close> is a non-empty string, so
  the guard of the emission holds and the notification goes out on every call.
\<close>

definition closeChallengeWindow :: "challenge_system \<times> heap \<Rightarrow> challenge_system \<times> heap" where
  "closeChallengeWindow s =
     (case s of (cs, h) \<Rightarrow>
      let cs1 = (case lastPlayedCard cs of
                   None \<Rightarrow> cs
                 | Some pl \<Rightarrow> cs\<lparr>lastPlayedCard := Some (pl\<lparr>challengeable := False\<rparr>)\<rparr>)
      in (case clearChallengeTimer (cs1, h) of
            (cs2, h1) \<Rightarrow> (cs2, emit (CHALLENGE_WINDOW_CLOSED (lastPlayedCard cs2)) h1)))"

text \<open>
  The host runs the callback of a pending timer: the callback that \<open>registerPlay\<close>
  schedules is \<open>closeChallengeWindow\<close>.
\<close>

definition timerFires :: "nat \<Rightarrow> challenge_system \<times> heap \<Rightarrow> challenge_system \<times> heap" where
  "timerFires t s =
     (case s of (cs, h) \<Rightarrow>
      if t \<in> set (timers h) then closeChallengeWindow (cs, h\<lparr>timers := removeAll t (timers h)\<rparr>)
      else (cs, h))"

text \<open>
  \<open>registerPlay(card, player, claimedType, position)\<close>. An argument that is not a \<open>Card\<close>
  or \<open>Player\<close> instance is \<open>None\<close>. The claimed type is not checked here: \<open>None\<close> stands
  for any value that is not one of the three card types.
\<close>

definition registerPlay ::
  "int \<Rightarrow> cref option \<Rightarrow> pref option \<Rightarrow> card_type option \<Rightarrow> int
     \<Rightarrow> challenge_system \<times> heap \<Rightarrow> (error + unit) \<times> challenge_system \<times> heap" where
  "registerPlay now card_arg player_arg claimed pos s =
     (case s of (cs, h) \<Rightarrow>
      (case (card_arg, player_arg) of
         (Some c, Some p) \<Rightarrow>
           let h1 = (case challengeTimer cs of None \<Rightarrow> h | Some t \<Rightarrow> clearTimeout t h);
               pl = \<lparr>play_card = c, play_player = p, play_claimedType = claimed,
                     play_actualType = c_type (cards h1 c), play_position = pos,
                     play_timestamp = now, challengeable = True\<rparr>;
               cs1 = cs\<lparr>lastPlayedCard := Some pl\<rparr>;
               scheduled = setTimeout h1;
               cs2 = cs1\<lparr>challengeTimer := Some (fst scheduled)\<rparr>
           in (Inr (), cs2,
               emit (CHALLENGE_WINDOW_OPEN pl (challengeTimeWindow cs2)) (snd scheduled))
       | _ \<Rightarrow> (Inl (Error ''Invalid card or player for challenge registration''), cs, h)))"

text \<open>
  \<open>processChallenge(challenger, playData)\<close>. In the bluff branch the explanation reads
  \<open>CARD_INFO[claimedType].name\<close>, which throws a \<open>TypeError\<close> when the claimed type is not
  a card type; nothing has been written at that point. The clock is read once per call.
\<close>

definition processChallenge ::
  "int \<Rightarrow> pref \<Rightarrow> play \<Rightarrow> heap \<Rightarrow> (error + challenge_outcome) \<times> heap" where
  "processChallenge now challenger playData h =
     (let c = play_card playData;
          player = play_player playData;
          claimed = play_claimedType playData;
          actualType = play_actualType playData;
          wasBluff = (claimed \<noteq> Some actualType);
          branch =
            (if wasBluff then
               (case claimed of
                  None \<Rightarrow> Inl TypeError
                | Some ct \<Rightarrow>
                    Inr (SUCCESSFUL,
                         player_name (players h player) @ '' was bluffing! Claimed ''
                           @ name (CARD_INFO ct) @ '' but played '' @ name (CARD_INFO actualType),
                         0,
                         updateStats player (\<lambda>st. st\<lparr>bluffsAttempted := bluffsAttempted st - 1\<rparr>)
                           (updateStats challenger
                              (\<lambda>st. st\<lparr>challengesSuccessful := challengesSuccessful st + 1\<rparr>) h)))
             else
               Inr (FAILED,
                    player_name (players h player)
                      @ '' was telling the truth! Both claimed and actual type are ''
                      @ name (CARD_INFO actualType),
                    - CHALLENGE_PENALTY,
                    updateStats player
                      (\<lambda>st. st\<lparr>truthfulPlays :=
                                Some ((case truthfulPlays st of None \<Rightarrow> 0 | Some n \<Rightarrow> n) + 1)\<rparr>)
                      (addScore challenger (- CHALLENGE_PENALTY) h)))
      in case branch of
           Inl e \<Rightarrow> (Inl e, h)
         | Inr (result, expl, pointsChanged, h1) \<Rightarrow>
             let h2 = h1\<lparr>cards := (cards h1)(c := reveal now (cards h1 c))\<rparr>;
                 h3 = h2\<lparr>players := (players h2)(challenger :=
                        updateBehaviorProfile now
                          (ChallengeMade (player_id (players h2 player)) (result = SUCCESSFUL)
                             actualType claimed)
                          (players h2 challenger))\<rparr>;
                 h4 = h3\<lparr>players := (players h3)(player :=
                        updateBehaviorProfile now
                          (ChallengeReceived (player_id (players h3 challenger)) wasBluff
                             actualType claimed result)
                          (players h3 player))\<rparr>
             in (Inr \<lparr>co_result = result, co_wasBluff = wasBluff, co_explanation = expl,
                      co_pointsChanged = pointsChanged, co_cardRevealed = True,
                      co_challenger = challenger, co_defendingPlayer = player, co_card = c\<rparr>,
                 h4))"

text \<open>
  \<open>makeChallenge(challenger)\<close>; the argument is \<open>None\<close> when it is not a \<open>Player\<close>
  instance.
\<close>

definition no_play_failure :: make_result where
  "no_play_failure =
     \<lparr>mr_success = False, mr_error = Some ''No challengeable play available'', mr_result = None\<rparr>"

definition self_challenge_failure :: make_result where
  "self_challenge_failure =
     \<lparr>mr_success = False, mr_error = Some ''Cannot challenge your own play'', mr_result = None\<rparr>"

definition makeChallenge ::
  "int \<Rightarrow> pref option \<Rightarrow> challenge_system \<times> heap
     \<Rightarrow> (error + make_result) \<times> challenge_system \<times> heap" where
  "makeChallenge now challenger_arg s =
     (case s of (cs, h) \<Rightarrow>
      (case challenger_arg of
         None \<Rightarrow> (Inl (Error ''Invalid challenger''), cs, h)
       | Some challenger \<Rightarrow>
           (case lastPlayedCard cs of
              None \<Rightarrow> (Inr no_play_failure, cs, h)
            | Some pl \<Rightarrow>
                if \<not> challengeable pl then (Inr no_play_failure, cs, h)
                else if challenger = play_player pl then (Inr self_challenge_failure, cs, h)
                else
                  (case clearChallengeTimer (cs, h) of (cs1, h1) \<Rightarrow>
                     (case processChallenge now challenger pl h1 of
                        (Inl e, h2) \<Rightarrow> (Inl e, cs1, h2)
                      | (Inr challengeResult, h2) \<Rightarrow>
                          let cs2 = cs1\<lparr>challengeHistory := challengeHistory cs1 @
                                [\<lparr>cr_challenger = challenger,
                                  cr_defendingPlayer = play_player pl,
                                  cr_card = play_card pl,
                                  cr_claimedType = play_claimedType pl,
                                  cr_actualType = play_actualType pl,
                                  cr_result = co_result challengeResult,
                                  cr_timestamp = now,
                                  cr_pointsChanged = co_pointsChanged challengeResult\<rparr>]\<rparr>;
                              cs3 = cs2\<lparr>lastPlayedCard := Some (pl\<lparr>challengeable := False\<rparr>)\<rparr>
                          in (Inr \<lparr>mr_success = True, mr_error = None,
                                   mr_result = Some challengeResult\<rparr>,
                              cs3,
                              emit (CHALLENGE_MADE challenger (play_player pl) challengeResult) h2))))))"

text \<open>
  What can happen to a pending play before the next one is registered: a call of
  \<open>makeChallenge\<close> at some time by some caller, a call of \<open>closeChallengeWindow\<close>, or a
  pending timer firing. \<open>successes\<close> counts the \<open>makeChallenge\<close> calls of a sequence that
  return \<open>success: true\<close>.
\<close>

text \<open>
  A challengeable play is pending: \<open>this.lastPlayedCard && this.lastPlayedCard.challengeable\<close>,
  the test that \<open>makeChallenge\<close> negates.
\<close>

definition play_pending :: "challenge_system \<Rightarrow> bool" where
  "play_pending cs = (case lastPlayedCard cs of None \<Rightarrow> False | Some pl \<Rightarrow> challengeable pl)"

datatype protocol_step = MakeChallenge int "pref option" | CloseChallengeWindow | TimerFires nat

fun apply_step :: "protocol_step \<Rightarrow> challenge_system \<times> heap \<Rightarrow> bool \<times> challenge_system \<times> heap" where
  "apply_step (MakeChallenge now who) s =
     (case makeChallenge now who s of
        (Inl e, s') \<Rightarrow> (False, s')
      | (Inr r, s') \<Rightarrow> (mr_success r, s'))"
| "apply_step CloseChallengeWindow s = (False, closeChallengeWindow s)"
| "apply_step (TimerFires t) s = (False, timerFires t s)"

fun successes :: "protocol_step list \<Rightarrow> challenge_system \<times> heap \<Rightarrow> nat" where
  "successes [] s = 0"
| "successes (x # xs) s =
     (if fst (apply_step x s) then 1 else 0) + successes xs (snd (apply_step x s))"

text \<open>
  The AI player (reference 1) has played card 0, a rock, at position 3 at time 100:
  once claiming paper, once claiming rock.
\<close>

definition bluff_registered :: "challenge_system \<times> heap" where
  "bluff_registered =
     snd (registerPlay 100 (Some 0) (Some 1) (Some paper) 3 (ChallengeSystem_new, heap0))"

definition truth_registered :: "challenge_system \<times> heap" where
  "truth_registered =
     snd (registerPlay 100 (Some 0) (Some 1) (Some rock) 3 (ChallengeSystem_new, heap0))"

definition bluff_play :: play where
  "bluff_play =
     \<lparr>play_card = 0, play_player = 1, play_claimedType = Some paper, play_actualType = rock,
      play_position = 3, play_timestamp = 100, challengeable = True\<rparr>"

definition truthful_play :: play where
  "truthful_play =
     \<lparr>play_card = 0, play_player = 1, play_claimedType = Some rock, play_actualType = rock,
      play_position = 3, play_timestamp = 100, challengeable = True\<rparr>"

section \<open>Battle determinism\<close>

lemma defeats_cases:
  "(defeats (CARD_INFO a) = b) =
     (a = rock \<and> b = scissors \<or> a = paper \<and> b = rock \<or> a = scissors \<and> b = paper)"
  by (cases a; cases b) simp_all

text \<open>
  Claim C1. The outcome of a battle is decided by the two actual types alone: it is a tie
  exactly when they are equal, \<open>card1_wins\<close> exactly for rock against scissors, paper
  against rock and scissors against paper, and \<open>card2_wins\<close> in every other case. Two
  cards with the same actual types give the same verdict whatever their other fields
  hold, and overwriting the claimed types changes nothing.
\<close>

theorem determineBattleOutcome_actual_types_only:
  assumes "c_type c1' = c_type c1" and "c_type c2' = c_type c2"
  shows "((outcome (determineBattleOutcome c1 c2) = tie) = (c_type c1 = c_type c2))
       \<and> ((outcome (determineBattleOutcome c1 c2) = card1_wins) =
            (c_type c1 = rock \<and> c_type c2 = scissors
             \<or> c_type c1 = paper \<and> c_type c2 = rock
             \<or> c_type c1 = scissors \<and> c_type c2 = paper))
       \<and> ((outcome (determineBattleOutcome c1 c2) = card2_wins) =
            (c_type c1 \<noteq> c_type c2
             \<and> \<not> (c_type c1 = rock \<and> c_type c2 = scissors
                  \<or> c_type c1 = paper \<and> c_type c2 = rock
                  \<or> c_type c1 = scissors \<and> c_type c2 = paper)))
       \<and> determineBattleOutcome c1' c2' = determineBattleOutcome c1 c2
       \<and> determineBattleOutcome (c1\<lparr>claimedType := x\<rparr>) (c2\<lparr>claimedType := y\<rparr>)
           = determineBattleOutcome c1 c2"
proof -
  have verdict: "outcome (determineBattleOutcome c1 c2) =
      (if c_type c1 = c_type c2 then tie
       else if defeats (CARD_INFO (c_type c1)) = c_type c2 then card1_wins else card2_wins)"
    by (simp add: determineBattleOutcome_def Let_def)
  have same: "determineBattleOutcome c1' c2' = determineBattleOutcome c1 c2"
    using assms by (simp add: determineBattleOutcome_def)
  have claim_free: "determineBattleOutcome (c1\<lparr>claimedType := x\<rparr>) (c2\<lparr>claimedType := y\<rparr>)
      = determineBattleOutcome c1 c2"
    by (simp add: determineBattleOutcome_def)
  show ?thesis
    unfolding verdict defeats_cases
    using same claim_free by (cases "c_type c1"; cases "c_type c2") simp_all
qed

theorem determineBattleOutcome_actual_types_only_witness:
  "c_type ((Card_new rock ''a'' 0)\<lparr>claimedType := Some paper\<rparr>) = c_type (Card_new rock ''a'' 5)
   \<and> c_type (Card_new scissors ''b'' 1) = c_type (Card_new scissors ''c'' 2)
   \<and> outcome (determineBattleOutcome (Card_new rock ''a'' 5) (Card_new scissors ''c'' 2)) = card1_wins
   \<and> determineBattleOutcome ((Card_new rock ''a'' 0)\<lparr>claimedType := Some paper\<rparr>)
        (Card_new scissors ''b'' 1)
      = determineBattleOutcome (Card_new rock ''a'' 5) (Card_new scissors ''c'' 2)"
  using determineBattleOutcome_actual_types_only
    [of "(Card_new rock ''a'' 0)\<lparr>claimedType := Some paper\<rparr>" "Card_new rock ''a'' 5"
        "Card_new scissors ''b'' 1" "Card_new scissors ''c'' 2"]
  by (simp add: Card_new_def)

section \<open>Scores\<close>

lemma addScore_score_self: "score (players (addScore p points h) p) = max 0 (score (players h p) + points)"
  by (simp add: addScore_def emit_def Let_def)

lemma addScore_score_other: "q \<noteq> p \<Longrightarrow> score (players (addScore p points h) q) = score (players h q)"
  by (simp add: addScore_def emit_def Let_def)

lemma addScore_keeps_nonneg:
  assumes "\<forall>q. 0 \<le> score (players h q)"
  shows "\<forall>q. 0 \<le> score (players (addScore p points h) q)"
proof
  fix q
  show "0 \<le> score (players (addScore p points h) q)"
  proof (cases "q = p")
    case True
    then show ?thesis by (simp add: addScore_score_self)
  next
    case False
    then show ?thesis using assms by (simp add: addScore_score_other)
  qed
qed

text \<open>
  Claim C2. Every player starts at a score of at least 0 (the constructor sets 0). Then
  after every call of any sequence of \<open>addScore\<close> calls, with positive or negative
  amounts, every player's score is at least 0; and the player a call is made on has a
  score of at least 0 after it whatever the store was before, because the sum is clamped.
\<close>

theorem addScore_never_negative:
  assumes "\<forall>q. 0 \<le> score (players h q)"
  shows "(\<forall>h' \<in> set (addScores calls h). \<forall>q. 0 \<le> score (players h' q))
       \<and> 0 \<le> score (players (addScore p points h0) p)"
proof
  show "\<forall>h' \<in> set (addScores calls h). \<forall>q. 0 \<le> score (players h' q)"
    using assms
  proof (induction calls arbitrary: h)
    case Nil
    then show ?case by simp
  next
    case (Cons call calls)
    obtain p' pts where call: "call = (p', pts)" by (cases call)
    have step: "\<forall>q. 0 \<le> score (players (addScore p' pts h) q)"
      using Cons.prems by (rule addScore_keeps_nonneg)
    from Cons.IH [OF step] step show ?case by (simp add: call)
  qed
next
  show "0 \<le> score (players (addScore p points h0) p)"
    by (simp add: addScore_score_self)
qed

lemma heap0_scores: "score (players heap0 q) = 0"
  by (simp add: heap0_def Player_new_def)

theorem addScore_never_negative_witness:
  "(\<forall>q. 0 \<le> score (players heap0 q))
   \<and> map (\<lambda>h'. score (players h' 0)) (addScores [(0, 1), (0, - 1), (0, - 1), (1, 3)] heap0)
       = [1, 0, 0, 0]
   \<and> list_all (\<lambda>h'. \<forall>q. 0 \<le> score (players h' q))
       (addScores [(0, 1), (0, - 1), (0, - 1), (1, 3)] heap0)"
proof -
  have start: "\<forall>q. 0 \<le> score (players heap0 q)"
    by (simp add: heap0_scores)
  have trace: "map (\<lambda>h'. score (players h' 0)) (addScores [(0, 1), (0, - 1), (0, - 1), (1, 3)] heap0)
       = [1, 0, 0, 0]"
    by (simp add: addScore_score_self addScore_score_other heap0_scores)
  from addScore_never_negative [OF start, of "[(0, 1), (0, - 1), (0, - 1), (1, 3)]" 0 0 heap0]
  have "list_all (\<lambda>h'. \<forall>q. 0 \<le> score (players h' q))
       (addScores [(0, 1), (0, - 1), (0, - 1), (1, 3)] heap0)"
    unfolding list_all_iff by blast
  with start trace show ?thesis by blast
qed

section \<open>Victory\<close>

text \<open>
  Claim C7, as the program has it. With \<open>VICTORY_POINTS = 10\<close> and
  \<open>MIN_VICTORY_LEAD = 1\<close>, a human player at exactly 10 against an AI player at 9 has
  won: \<open>hasWon\<close> returns true, since \<open>10 \<ge> 10\<close> and \<open>10 \<ge> 9 + 1\<close>.
\<close>

theorem hasWon_ten_nine:
  assumes "score human = 10" and "score ai = 9"
  shows "VICTORY_POINTS = 10 \<and> MIN_VICTORY_LEAD = 1 \<and> hasWon human ai"
  using assms by (simp add: hasWon_def VICTORY_POINTS_def MIN_VICTORY_LEAD_def)

theorem hasWon_ten_nine_witness:
  "score ((Player_new ''human'' ''You'' HUMAN 0)\<lparr>score := 10\<rparr>) = 10
   \<and> score ((Player_new ''ai'' ''AI'' AI 0)\<lparr>score := 9\<rparr>) = 9
   \<and> hasWon ((Player_new ''human'' ''You'' HUMAN 0)\<lparr>score := 10\<rparr>)
        ((Player_new ''ai'' ''AI'' AI 0)\<lparr>score := 9\<rparr>)"
proof -
  have human: "score ((Player_new ''human'' ''You'' HUMAN 0)\<lparr>score := 10\<rparr>) = 10"
    by simp
  have ai: "score ((Player_new ''ai'' ''AI'' AI 0)\<lparr>score := 9\<rparr>) = 9"
    by simp
  from hasWon_ten_nine [OF human ai] human ai show ?thesis by blast
qed

text \<open>The claim as stated, that \<open>hasWon\<close> returns false there, fails.\<close>

theorem hasWon_ten_nine_counterexample:
  "\<not> (hasWon ((Player_new ''human'' ''You'' HUMAN 0)\<lparr>score := 10\<rparr>)
          ((Player_new ''ai'' ''AI'' AI 0)\<lparr>score := 9\<rparr>) = False)"
  by (simp add: hasWon_def VICTORY_POINTS_def MIN_VICTORY_LEAD_def)

text \<open>
  Claim C9, amended. Let a player have won against the opponent at one pair of scores.
  At any other pair of scores where the player's lead is not smaller and the player's own
  score is still at least \<open>VICTORY_POINTS\<close>, the player has won as well.
\<close>

theorem hasWon_monotone_in_lead:
  assumes "hasWon a b"
    and "score a' - score b' \<ge> score a - score b"
    and "score a' \<ge> VICTORY_POINTS"
  shows "hasWon a' b'"
  using assms by (simp add: hasWon_def)

theorem hasWon_monotone_in_lead_witness:
  "hasWon ((Player_new ''human'' ''You'' HUMAN 0)\<lparr>score := 10\<rparr>)
     ((Player_new ''ai'' ''AI'' AI 0)\<lparr>score := 9\<rparr>)
   \<and> score ((Player_new ''human'' ''You'' HUMAN 0)\<lparr>score := 12\<rparr>)
        - score ((Player_new ''ai'' ''AI'' AI 0)\<lparr>score := 8\<rparr>)
      \<ge> score ((Player_new ''human'' ''You'' HUMAN 0)\<lparr>score := 10\<rparr>)
        - score ((Player_new ''ai'' ''AI'' AI 0)\<lparr>score := 9\<rparr>)
   \<and> score ((Player_new ''human'' ''You'' HUMAN 0)\<lparr>score := 12\<rparr>) \<ge> VICTORY_POINTS
   \<and> hasWon ((Player_new ''human'' ''You'' HUMAN 0)\<lparr>score := 12\<rparr>)
       ((Player_new ''ai'' ''AI'' AI 0)\<lparr>score := 8\<rparr>)"
proof -
  have won: "hasWon ((Player_new ''human'' ''You'' HUMAN 0)\<lparr>score := 10\<rparr>)
     ((Player_new ''ai'' ''AI'' AI 0)\<lparr>score := 9\<rparr>)"
    by (simp add: hasWon_def VICTORY_POINTS_def MIN_VICTORY_LEAD_def)
  have lead: "score ((Player_new ''human'' ''You'' HUMAN 0)\<lparr>score := 12\<rparr>)
        - score ((Player_new ''ai'' ''AI'' AI 0)\<lparr>score := 8\<rparr>)
      \<ge> score ((Player_new ''human'' ''You'' HUMAN 0)\<lparr>score := 10\<rparr>)
        - score ((Player_new ''ai'' ''AI'' AI 0)\<lparr>score := 9\<rparr>)"
    by simp
  have still: "score ((Player_new ''human'' ''You'' HUMAN 0)\<lparr>score := 12\<rparr>) \<ge> VICTORY_POINTS"
    by (simp add: VICTORY_POINTS_def)
  from hasWon_monotone_in_lead [OF won lead still] won lead still
  show ?thesis by blast
qed

text \<open>
  The claim as stated fails when both scores drop together: a player who has won at
  \<open>(10, 9)\<close> keeps a lead of 1 at \<open>(9, 8)\<close>, after one failed challenge each, and has
  not won there.
\<close>

theorem hasWon_monotone_in_lead_counterexample:
  "hasWon ((Player_new ''human'' ''You'' HUMAN 0)\<lparr>score := 10\<rparr>)
     ((Player_new ''ai'' ''AI'' AI 0)\<lparr>score := 9\<rparr>)
   \<and> score ((Player_new ''human'' ''You'' HUMAN 0)\<lparr>score := 9\<rparr>)
        - score ((Player_new ''ai'' ''AI'' AI 0)\<lparr>score := 8\<rparr>)
      \<ge> score ((Player_new ''human'' ''You'' HUMAN 0)\<lparr>score := 10\<rparr>)
        - score ((Player_new ''ai'' ''AI'' AI 0)\<lparr>score := 9\<rparr>)
   \<and> \<not> hasWon ((Player_new ''human'' ''You'' HUMAN 0)\<lparr>score := 9\<rparr>)
       ((Player_new ''ai'' ''AI'' AI 0)\<lparr>score := 8\<rparr>)"
  by (simp add: hasWon_def VICTORY_POINTS_def MIN_VICTORY_LEAD_def)

section \<open>Battle pairs\<close>

lemma getBattlePairs_loop_stop:
  "\<not> int pos < int (totalPositions g) - 1 \<Longrightarrow> getBattlePairs_loop g pos battles = Inr battles"
  by (subst getBattlePairs_loop.simps) simp

lemma coords_rows:
  "(int pos div int w = (int pos + 1) div int w) = (pos div w = Suc pos div w)"
proof -
  have e: "int pos + 1 = int (Suc pos)" by simp
  show ?thesis unfolding e zdiv_int [symmetric] by simp
qed

lemma coords_cols:
  "((int pos + 1) mod int w = int pos mod int w + 1) = (Suc pos mod w = pos mod w + 1)"
proof -
  have e: "int pos + 1 = int (Suc pos)" by simp
  show ?thesis unfolding e zmod_int [symmetric] by linarith
qed

lemma getBattlePairs_loop_step:
  assumes "int pos < int (totalPositions g) - 1"
  shows "getBattlePairs_loop g pos battles = getBattlePairs_loop g (Suc pos) (battles @ pair_at g pos)"
proof -
  have cur: "getCardAt g (int pos) = grid g ! pos"
    using assms by (simp add: getCardAt_def)
  have nxt: "getCardAt g (int pos + 1) = grid g ! Suc pos"
    using assms by (simp add: getCardAt_def nat_add_distrib)
  have c1: "positionToCoords g (int pos) = Inr \<lparr>row = int pos div int (width g), col = int pos mod int (width g)\<rparr>"
    using assms by (simp add: positionToCoords_def)
  have c2: "positionToCoords g (int pos + 1)
      = Inr \<lparr>row = (int pos + 1) div int (width g), col = (int pos + 1) mod int (width g)\<rparr>"
    using assms by (simp add: positionToCoords_def)
  have body: "(case (grid g ! pos, grid g ! Suc pos) of
            (Some c1, Some c2) \<Rightarrow>
              if int pos div int (width g) = (int pos + 1) div int (width g)
                 \<and> (int pos + 1) mod int (width g) = int pos mod int (width g) + 1
              then battles @ [\<lparr>position1 = int pos, card1 = c1, position2 = int pos + 1,
                               card2 = c2, b_type = ''horizontal''\<rparr>]
              else battles
          | _ \<Rightarrow> battles) = battles @ pair_at g pos"
    unfolding coords_rows coords_cols
    by (cases "grid g ! pos"; cases "grid g ! Suc pos")
       (simp_all add: pair_at_def same_row_def next_column_def)
  have "getBattlePairs_loop g pos battles =
      getBattlePairs_loop g (Suc pos)
        (case (grid g ! pos, grid g ! Suc pos) of
            (Some c1, Some c2) \<Rightarrow>
              if int pos div int (width g) = (int pos + 1) div int (width g)
                 \<and> (int pos + 1) mod int (width g) = int pos mod int (width g) + 1
              then battles @ [\<lparr>position1 = int pos, card1 = c1, position2 = int pos + 1,
                               card2 = c2, b_type = ''horizontal''\<rparr>]
              else battles
          | _ \<Rightarrow> battles)"
    by (subst getBattlePairs_loop.simps) (simp add: assms cur nxt c1 c2 Let_def split: option.splits)
  then show ?thesis by (simp only: body)
qed

lemma getBattlePairs_loop_eq:
  "getBattlePairs_loop g pos battles
     = Inr (battles @ concat (map (pair_at g) [pos ..< totalPositions g - 1]))"
proof (induction "totalPositions g - 1 - pos" arbitrary: pos battles)
  case 0
  then have "\<not> int pos < int (totalPositions g) - 1" by linarith
  moreover from 0 have "[pos ..< totalPositions g - 1] = []" by simp
  ultimately show ?case by (simp add: getBattlePairs_loop_stop)
next
  case (Suc n)
  then have lt: "int pos < int (totalPositions g) - 1" by linarith
  from Suc have n: "n = totalPositions g - 1 - Suc pos" by simp
  from Suc have upt: "[pos ..< totalPositions g - 1] = pos # [Suc pos ..< totalPositions g - 1]"
    by (simp add: upt_conv_Cons)
  have "getBattlePairs_loop g pos battles
      = getBattlePairs_loop g (Suc pos) (battles @ pair_at g pos)"
    by (rule getBattlePairs_loop_step [OF lt])
  also have "\<dots> = Inr ((battles @ pair_at g pos)
      @ concat (map (pair_at g) [Suc pos ..< totalPositions g - 1]))"
    by (rule Suc.hyps(1) [OF n])
  also have "\<dots> = Inr (battles @ concat (map (pair_at g) (pos # [Suc pos ..< totalPositions g - 1])))"
    by simp
  finally show ?case by (simp only: upt)
qed

lemma identifyBattles_loop_stop:
  "\<not> int pos < int (totalPositions g) - 1 \<Longrightarrow> identifyBattles_loop g pos queue = Inr queue"
  by (subst identifyBattles_loop.simps) simp

lemma identifyBattles_loop_step:
  assumes "int pos < int (totalPositions g) - 1"
  shows "identifyBattles_loop g pos queue = identifyBattles_loop g (Suc pos) (queue @ pair_at g pos)"
proof -
  have cur: "getCardAt g (int pos) = grid g ! pos"
    using assms by (simp add: getCardAt_def)
  have nxt: "getCardAt g (int pos + 1) = grid g ! Suc pos"
    using assms by (simp add: getCardAt_def nat_add_distrib)
  have c1: "positionToCoords g (int pos) = Inr \<lparr>row = int pos div int (width g), col = int pos mod int (width g)\<rparr>"
    using assms by (simp add: positionToCoords_def)
  have c2: "positionToCoords g (int pos + 1)
      = Inr \<lparr>row = (int pos + 1) div int (width g), col = (int pos + 1) mod int (width g)\<rparr>"
    using assms by (simp add: positionToCoords_def)
  show ?thesis
  proof (cases "grid g ! pos")
    case None
    then have "pair_at g pos = []" by (simp add: pair_at_def)
    with None show ?thesis
      by (subst identifyBattles_loop.simps) (simp add: assms cur nxt)
  next
    case first: (Some a)
    show ?thesis
    proof (cases "grid g ! Suc pos")
      case None
      with first have "pair_at g pos = []" by (simp add: pair_at_def)
      with None first show ?thesis
        by (subst identifyBattles_loop.simps) (simp add: assms cur nxt)
    next
      case second: (Some b)
      have "pair_at g pos =
          (if int pos div int (width g) = (int pos + 1) div int (width g)
              \<and> (int pos + 1) mod int (width g) = int pos mod int (width g) + 1
           then [\<lparr>position1 = int pos, card1 = a, position2 = int pos + 1, card2 = b,
                  b_type = ''horizontal''\<rparr>]
           else [])"
        unfolding coords_rows coords_cols
        by (simp add: pair_at_def first second same_row_def next_column_def)
      with first second show ?thesis
        by (subst identifyBattles_loop.simps) (simp add: assms cur nxt c1 c2)
    qed
  qed
qed

lemma identifyBattles_loop_eq:
  "identifyBattles_loop g pos queue
     = Inr (queue @ concat (map (pair_at g) [pos ..< totalPositions g - 1]))"
proof (induction "totalPositions g - 1 - pos" arbitrary: pos queue)
  case 0
  then have "\<not> int pos < int (totalPositions g) - 1" by linarith
  moreover from 0 have "[pos ..< totalPositions g - 1] = []" by simp
  ultimately show ?case by (simp add: identifyBattles_loop_stop)
next
  case (Suc n)
  then have lt: "int pos < int (totalPositions g) - 1" by linarith
  from Suc have n: "n = totalPositions g - 1 - Suc pos" by simp
  from Suc have upt: "[pos ..< totalPositions g - 1] = pos # [Suc pos ..< totalPositions g - 1]"
    by (simp add: upt_conv_Cons)
  have "identifyBattles_loop g pos queue
      = identifyBattles_loop g (Suc pos) (queue @ pair_at g pos)"
    by (rule identifyBattles_loop_step [OF lt])
  also have "\<dots> = Inr ((queue @ pair_at g pos)
      @ concat (map (pair_at g) [Suc pos ..< totalPositions g - 1]))"
    by (rule Suc.hyps(1) [OF n])
  also have "\<dots> = Inr (queue @ concat (map (pair_at g) (pos # [Suc pos ..< totalPositions g - 1])))"
    by simp
  finally show ?case by (simp only: upt)
qed

lemma pair_at_member:
  assumes "b \<in> set (pair_at g p)"
  shows "position1 b = int p \<and> position2 b = int p + 1
       \<and> grid g ! p = Some (card1 b) \<and> grid g ! (p + 1) = Some (card2 b)
       \<and> same_row g p (p + 1) \<and> next_column g p (p + 1)"
  using assms by (auto simp: pair_at_def split: option.splits if_splits)

lemma spec_member:
  assumes "b \<in> set (concat (map (pair_at g) [lo ..< hi]))"
  shows "\<exists>p. lo \<le> p \<and> p < hi \<and> b \<in> set (pair_at g p)"
  using assms by auto

lemma spec_sorted:
  "sorted_wrt (<) (map position1 (concat (map (pair_at g) [lo ..< hi])))"
proof (induction hi)
  case 0
  then show ?case by simp
next
  case (Suc hi)
  show ?case
  proof (cases "lo \<le> hi")
    case False
    then show ?thesis by simp
  next
    case True
    have last: "sorted_wrt (<) (map position1 (pair_at g hi))"
      by (simp add: pair_at_def split: option.splits)
    have below: "\<forall>x \<in> set (concat (map (pair_at g) [lo ..< hi])). \<forall>y \<in> set (pair_at g hi).
        position1 x < position1 y"
    proof (intro ballI)
      fix x y
      assume x: "x \<in> set (concat (map (pair_at g) [lo ..< hi]))" and y: "y \<in> set (pair_at g hi)"
      from spec_member [OF x] obtain p where "p < hi" "x \<in> set (pair_at g p)" by blast
      with pair_at_member [of x g p] pair_at_member [OF y] show "position1 x < position1 y"
        by simp
    qed
    from True Suc last below show ?thesis
      by (simp add: sorted_wrt_append)
  qed
qed

lemma next_column_not_first:
  assumes "next_column g p (p + 1)"
  shows "(int p + 1) mod int (width g) \<noteq> 0"
proof -
  have e: "int p + 1 = int (Suc p)" by simp
  from assms have "Suc p mod width g \<noteq> 0" by (simp add: next_column_def)
  then show ?thesis unfolding e zmod_int [symmetric] by simp
qed

lemma grid_3456_inv: "grid_inv grid_3456"
  by (simp add: grid_inv_def grid_3456_def GridSystem_new_def)

lemma spec_3456: "battle_pairs_spec grid_3456 =
        [\<lparr>position1 = 3, card1 = 0, position2 = 4, card2 = 1, b_type = ''horizontal''\<rparr>,
         \<lparr>position1 = 5, card1 = 2, position2 = 6, card2 = 3, b_type = ''horizontal''\<rparr>]"
  by code_simp

text \<open>
  Claim C6. On a grid as the constructor builds it, \<open>getBattlePairs\<close> returns (it never
  throws) exactly the enumeration of the specification, and so does \<open>identifyBattles\<close>
  on an empty queue: for \<open>p\<close> from 0 to \<open>N - 2\<close>, the
  pair of \<open>p\<close> and \<open>p + 1\<close> when both slots hold a card, both lie in the same row and
  \<open>p + 1\<close> is in the next column. The pairs come in strictly increasing order of their
  first position, the second position of a pair is never the first column of a row, and
  on a grid of width 5 no pair starts at position 4.
\<close>

theorem getBattlePairs_same_row_adjacent:
  assumes "grid_inv g"
  shows "getBattlePairs g = Inr (battle_pairs_spec g)
       \<and> identifyBattles g [] = Inr (battle_pairs_spec g)
       \<and> sorted_wrt (<) (map position1 (battle_pairs_spec g))
       \<and> (\<forall>b \<in> set (battle_pairs_spec g).
            position2 b = position1 b + 1 \<and> position2 b mod int (width g) \<noteq> 0)
       \<and> (width g = 5 \<longrightarrow> (\<forall>b \<in> set (battle_pairs_spec g). position1 b \<noteq> 4))"
proof (intro conjI)
  show "getBattlePairs g = Inr (battle_pairs_spec g)"
    by (simp add: getBattlePairs_def battle_pairs_spec_def getBattlePairs_loop_eq)
  show "identifyBattles g [] = Inr (battle_pairs_spec g)"
    by (simp add: identifyBattles_def battle_pairs_spec_def identifyBattles_loop_eq)
  show "sorted_wrt (<) (map position1 (battle_pairs_spec g))"
    unfolding battle_pairs_spec_def by (rule spec_sorted)
  show adj: "\<forall>b \<in> set (battle_pairs_spec g).
            position2 b = position1 b + 1 \<and> position2 b mod int (width g) \<noteq> 0"
  proof
    fix b
    assume "b \<in> set (battle_pairs_spec g)"
    then obtain p where "b \<in> set (pair_at g p)"
      unfolding battle_pairs_spec_def using spec_member by blast
    from pair_at_member [OF this] next_column_not_first [of g p]
    show "position2 b = position1 b + 1 \<and> position2 b mod int (width g) \<noteq> 0"
      by simp
  qed
  show "width g = 5 \<longrightarrow> (\<forall>b \<in> set (battle_pairs_spec g). position1 b \<noteq> 4)"
  proof (intro impI ballI)
    fix b
    assume w: "width g = 5" and b: "b \<in> set (battle_pairs_spec g)"
    from adj b have "(position1 b + 1) mod 5 \<noteq> 0" using w by auto
    then show "position1 b \<noteq> 4" by auto
  qed
qed

theorem getBattlePairs_same_row_adjacent_witness:
  "grid_inv grid_3456
   \<and> getBattlePairs grid_3456 =
       Inr [\<lparr>position1 = 3, card1 = 0, position2 = 4, card2 = 1, b_type = ''horizontal''\<rparr>,
            \<lparr>position1 = 5, card1 = 2, position2 = 6, card2 = 3, b_type = ''horizontal''\<rparr>]
   \<and> identifyBattles grid_3456 [] =
       Inr [\<lparr>position1 = 3, card1 = 0, position2 = 4, card2 = 1, b_type = ''horizontal''\<rparr>,
            \<lparr>position1 = 5, card1 = 2, position2 = 6, card2 = 3, b_type = ''horizontal''\<rparr>]"
  using getBattlePairs_same_row_adjacent [OF grid_3456_inv] grid_3456_inv spec_3456
  by simp

section \<open>Removing a card\<close>

lemma grid_after_place_inv: "grid_inv (fst grid_after_place)"
  by (simp add: grid_after_place_def placeCard_def isPositionAvailable_def GridSystem_new_def
      place_def TOTAL_POSITIONS_def recordChange_def Let_def grid_inv_def)

lemma grid_after_place_total: "totalPositions (fst grid_after_place) = 15"
  by (simp add: grid_after_place_def placeCard_def isPositionAvailable_def GridSystem_new_def
      place_def TOTAL_POSITIONS_def recordChange_def Let_def)

lemma grid_after_place_slot: "getCardAt (fst grid_after_place) 8 = Some 7"
  by (simp add: grid_after_place_def placeCard_def isPositionAvailable_def GridSystem_new_def
      place_def TOTAL_POSITIONS_def recordChange_def Let_def getCardAt_def)

lemma grid_after_place_card:
  "position (cards (snd grid_after_place) 7) = Some 8 \<and> state (cards (snd grid_after_place) 7) = PLACED"
  by (simp add: grid_after_place_def placeCard_def isPositionAvailable_def GridSystem_new_def
      place_def TOTAL_POSITIONS_def recordChange_def Let_def emit_def)

text \<open>
  Claim C10. Let position \<open>p\<close> be in range and hold card \<open>c\<close>. Then \<open>removeCard(p)\<close>
  returns \<open>c\<close>, afterwards \<open>getCardAt(p)\<close> is null and the position state of \<open>p\<close> is
  \<open>EMPTY\<close>, and the store of card objects is the one before the call: no field of any
  card has changed. So a card that recorded position \<open>p\<close> and state \<open>placed\<close> still
  records both, although the grid no longer holds it.
\<close>

theorem removeCard_mutates_only_grid:
  assumes "grid_inv g" and "0 \<le> p" and "p < int (totalPositions g)"
    and "getCardAt g p = Some c"
  shows "case removeCard now p (g, h) of (r, g', h') \<Rightarrow>
           r = Inr (Some c) \<and> getCardAt g' p = None \<and> getPositionState g' p = EMPTY
           \<and> grid_inv g' \<and> cards h' = cards h \<and> players h' = players h
           \<and> cards h' c = cards h c
           \<and> (position (cards h c) = Some p \<and> state (cards h c) = PLACED
                \<longrightarrow> position (cards h' c) = Some p \<and> state (cards h' c) = PLACED)"
proof -
  from assms have slot: "grid g ! nat p = Some c"
    by (simp add: getCardAt_def)
  from assms(2,3) have "nat p < totalPositions g"
    by linarith
  with assms(1) have inside: "nat p < length (grid g)" "nat p < length (positionStates g)"
    by (simp_all add: grid_inv_def)
  have range: "\<not> (p < 0 \<or> int (totalPositions g) \<le> p)"
    using assms(2,3) by simp
  show ?thesis
    using assms(1) inside range
    by (simp add: removeCard_def slot recordChange_def emit_def Let_def getCardAt_def
        getPositionState_def grid_inv_def)
qed

theorem removeCard_mutates_only_grid_witness:
  "grid_inv (fst grid_after_place) \<and> (0::int) \<le> 8 \<and> 8 < int (totalPositions (fst grid_after_place))
   \<and> getCardAt (fst grid_after_place) 8 = Some 7
   \<and> position (cards (snd grid_after_place) 7) = Some 8
   \<and> state (cards (snd grid_after_place) 7) = PLACED
   \<and> (case removeCard 10 8 (fst grid_after_place, snd grid_after_place) of (r, g', h') \<Rightarrow>
         r = Inr (Some 7) \<and> getCardAt g' 8 = None \<and> getPositionState g' 8 = EMPTY
         \<and> position (cards h' 7) = Some 8 \<and> state (cards h' 7) = PLACED)"
proof -
  have range: "(0::int) \<le> 8" "8 < int (totalPositions (fst grid_after_place))"
    by (simp_all add: grid_after_place_total)
  from removeCard_mutates_only_grid
    [OF grid_after_place_inv range grid_after_place_slot,
      where now = 10 and h = "snd grid_after_place"]
    grid_after_place_inv range grid_after_place_slot grid_after_place_card
  show ?thesis by (auto split: prod.splits)
qed

section \<open>Challenges\<close>

lemma score_updateBehaviorProfile [simp]: "score (updateBehaviorProfile now d p) = score p"
  by (simp add: updateBehaviorProfile_def Let_def)

lemma score_updateStats [simp]: "score (players (updateStats p f h) q) = score (players h q)"
  by (simp add: updateStats_def)

lemma cards_updateStats [simp]: "cards (updateStats p f h) = cards h"
  by (simp add: updateStats_def)

lemma emitted_updateStats [simp]: "emitted (updateStats p f h) = emitted h"
  by (simp add: updateStats_def)

lemma cards_addScore [simp]: "cards (addScore p points h) = cards h"
  by (simp add: addScore_def emit_def Let_def)

lemma score_addScore:
  "score (players (addScore p points h) q)
     = (if q = p then max 0 (score (players h p) + points) else score (players h q))"
  by (simp add: addScore_def emit_def Let_def)

lemma processChallenge_truthful:
  assumes "play_claimedType pl = Some (play_actualType pl)"
  shows "\<exists>out h'. processChallenge now ch pl h = (Inr out, h')
           \<and> co_result out = FAILED \<and> \<not> co_wasBluff out
           \<and> co_pointsChanged out = - CHALLENGE_PENALTY
           \<and> (\<forall>q. score (players h' q)
                 = (if q = ch then max 0 (score (players h ch) - CHALLENGE_PENALTY)
                    else score (players h q)))
           \<and> isRevealed (cards h' (play_card pl))"
  using assms
  by (simp add: processChallenge_def Let_def score_addScore reveal_def)

lemma processChallenge_bluff:
  assumes "play_claimedType pl = Some ct" and "ct \<noteq> play_actualType pl"
  shows "\<exists>out h'. processChallenge now ch pl h = (Inr out, h')
           \<and> co_result out = SUCCESSFUL \<and> co_wasBluff out
           \<and> co_pointsChanged out = 0 \<and> co_cardRevealed out
           \<and> co_card out = play_card pl
           \<and> isRevealed (cards h' (play_card pl))
           \<and> state (cards h' (play_card pl)) = REVEALED
           \<and> (\<forall>q. score (players h' q) = score (players h q))
           \<and> emitted h' = emitted h"
  using assms
  by (simp add: processChallenge_def Let_def reveal_def)

lemma players_clearTimeout [simp]: "players (clearTimeout t h) = players h"
  by (simp add: clearTimeout_def)

lemma cards_clearTimeout [simp]: "cards (clearTimeout t h) = cards h"
  by (simp add: clearTimeout_def)

lemma players_emit [simp]: "players (emit e h) = players h"
  by (simp add: emit_def)

lemma cards_emit [simp]: "cards (emit e h) = cards h"
  by (simp add: emit_def)

lemma players_clearChallengeTimer [simp]: "players (snd (clearChallengeTimer (cs, h))) = players h"
  by (simp add: clearChallengeTimer_def split: option.splits)

lemma cards_clearChallengeTimer [simp]: "cards (snd (clearChallengeTimer (cs, h))) = cards h"
  by (simp add: clearChallengeTimer_def split: option.splits)

lemma emitted_clearChallengeTimer [simp]: "emitted (snd (clearChallengeTimer (cs, h))) = emitted h"
  by (simp add: clearChallengeTimer_def clearTimeout_def split: option.splits)

lemma lastPlayedCard_clearChallengeTimer [simp]:
  "lastPlayedCard (fst (clearChallengeTimer (cs, h))) = lastPlayedCard cs"
  by (simp add: clearChallengeTimer_def split: option.splits)

lemma challengeTimer_clearChallengeTimer [simp]:
  "challengeTimer (fst (clearChallengeTimer (cs, h))) = None"
  by (simp add: clearChallengeTimer_def split: option.splits)

lemma makeChallenge_success:
  assumes "lastPlayedCard cs = Some pl"
    and "makeChallenge now (Some ch) (cs, h) = (Inr res, cs', h')"
    and "mr_success res"
  shows "challengeable pl \<and> ch \<noteq> play_player pl
       \<and> (\<exists>out h2. processChallenge now ch pl (snd (clearChallengeTimer (cs, h))) = (Inr out, h2)
            \<and> mr_result res = Some out
            \<and> h' = emit (CHALLENGE_MADE ch (play_player pl) out) h2)
       \<and> lastPlayedCard cs' = Some (pl\<lparr>challengeable := False\<rparr>)"
proof -
  have open_play: "challengeable pl"
  proof (rule ccontr)
    assume "\<not> challengeable pl"
    with assms(1,2) have "res = no_play_failure"
      by (simp add: makeChallenge_def)
    with assms(3) show False by (simp add: no_play_failure_def)
  qed
  have other: "ch \<noteq> play_player pl"
  proof
    assume "ch = play_player pl"
    with assms(1,2) open_play have "res = self_challenge_failure"
      by (simp add: makeChallenge_def)
    with assms(3) show False by (simp add: self_challenge_failure_def)
  qed
  obtain cs1 h1 where ct: "clearChallengeTimer (cs, h) = (cs1, h1)"
    by (cases "clearChallengeTimer (cs, h)")
  from lastPlayedCard_clearChallengeTimer [of cs h] ct
  have last1: "lastPlayedCard cs1 = lastPlayedCard cs" by simp
  obtain r h2 where pc: "processChallenge now ch pl h1 = (r, h2)"
    by (cases "processChallenge now ch pl h1")
  show ?thesis
  proof (cases r)
    case (Inl e)
    with assms(1,2) open_play other pc ct show ?thesis
      by (simp add: makeChallenge_def Let_def)
  next
    case (Inr out)
    with assms(1,2) open_play other pc ct last1 show ?thesis
      by (auto simp add: makeChallenge_def Let_def)
  qed
qed

lemma makeChallenge_accepts:
  assumes "lastPlayedCard cs = Some pl" and "challengeable pl" and "ch \<noteq> play_player pl"
    and "play_claimedType pl \<noteq> None"
  shows "\<exists>res cs' h'. makeChallenge now (Some ch) (cs, h) = (Inr res, cs', h') \<and> mr_success res"
proof -
  obtain cs1 h1 where ct: "clearChallengeTimer (cs, h) = (cs1, h1)"
    by (cases "clearChallengeTimer (cs, h)")
  from assms(4) obtain ct' where claimed: "play_claimedType pl = Some ct'" by auto
  have "\<exists>out h2. processChallenge now ch pl h1 = (Inr out, h2)"
  proof (cases "ct' = play_actualType pl")
    case True
    with claimed processChallenge_truthful [of pl now ch h1] show ?thesis by auto
  next
    case False
    with claimed processChallenge_bluff [of pl ct' now ch h1] show ?thesis by auto
  qed
  then obtain out h2 where "processChallenge now ch pl h1 = (Inr out, h2)" by blast
  with assms(1-3) ct show ?thesis
    by (simp add: makeChallenge_def Let_def)
qed

lemma truth_registered_eq:
  "truth_registered =
     (ChallengeSystem_new\<lparr>lastPlayedCard := Some truthful_play, challengeTimer := Some 1\<rparr>,
      heap0\<lparr>emitted := [CHALLENGE_WINDOW_OPEN truthful_play 5000], timers := [1], nextTimer := 2\<rparr>)"
  by (simp add: truth_registered_def registerPlay_def ChallengeSystem_new_def heap0_def
      Card_new_def setTimeout_def emit_def truthful_play_def Let_def)

lemma bluff_registered_eq:
  "bluff_registered =
     (ChallengeSystem_new\<lparr>lastPlayedCard := Some bluff_play, challengeTimer := Some 1\<rparr>,
      heap0\<lparr>emitted := [CHALLENGE_WINDOW_OPEN bluff_play 5000], timers := [1], nextTimer := 2\<rparr>)"
  by (simp add: bluff_registered_def registerPlay_def ChallengeSystem_new_def heap0_def
      Card_new_def setTimeout_def emit_def bluff_play_def Let_def)

text \<open>
  Claim C3. Let the pending play be truthful: its claimed type is its actual type. Then
  \<open>processChallenge\<close> returns the result \<open>FAILED\<close> with \<open>pointsChanged\<close> equal to minus
  the penalty, the challenger's score becomes the larger of 0 and the old score minus
  \<open>CHALLENGE_PENALTY\<close>, and the score of every other player is unchanged. Whenever
  \<open>makeChallenge\<close> accepts a challenge of that play (it returns \<open>success: true\<close>, which
  it does only for a challenger other than the player of the play), the result is
  \<open>FAILED\<close>, the challenger's score has dropped by the penalty, clamped at 0, and the
  defending player's score is what it was.
\<close>

theorem failed_challenge_penalty:
  assumes "play_claimedType pl = Some (play_actualType pl)"
  shows "(case processChallenge now ch pl h of (r, h1) \<Rightarrow>
            (\<exists>out. r = Inr out \<and> co_result out = FAILED
                   \<and> co_pointsChanged out = - CHALLENGE_PENALTY)
            \<and> score (players h1 ch) = max 0 (score (players h ch) - CHALLENGE_PENALTY)
            \<and> (\<forall>q. q \<noteq> ch \<longrightarrow> score (players h1 q) = score (players h q)))
       \<and> (lastPlayedCard cs = Some pl
            \<and> makeChallenge now (Some ch) (cs, h) = (Inr res, cs', h') \<and> mr_success res
          \<longrightarrow> (\<exists>out. mr_result res = Some out \<and> co_result out = FAILED)
              \<and> score (players h' ch) = max 0 (score (players h ch) - CHALLENGE_PENALTY)
              \<and> score (players h' (play_player pl)) = score (players h (play_player pl)))"
proof (intro conjI impI)
  from processChallenge_truthful [OF assms, of now ch h]
  show "case processChallenge now ch pl h of (r, h1) \<Rightarrow>
            (\<exists>out. r = Inr out \<and> co_result out = FAILED
                   \<and> co_pointsChanged out = - CHALLENGE_PENALTY)
            \<and> score (players h1 ch) = max 0 (score (players h ch) - CHALLENGE_PENALTY)
            \<and> (\<forall>q. q \<noteq> ch \<longrightarrow> score (players h1 q) = score (players h q))"
    by auto
next
  assume made: "lastPlayedCard cs = Some pl
      \<and> makeChallenge now (Some ch) (cs, h) = (Inr res, cs', h') \<and> mr_success res"
  then have pending: "lastPlayedCard cs = Some pl"
    and call: "makeChallenge now (Some ch) (cs, h) = (Inr res, cs', h')"
    and ok: "mr_success res"
    by simp_all
  from makeChallenge_success [OF pending call ok]
  obtain out h2 where other: "ch \<noteq> play_player pl"
    and pc: "processChallenge now ch pl (snd (clearChallengeTimer (cs, h))) = (Inr out, h2)"
    and res: "mr_result res = Some out"
    and h': "h' = emit (CHALLENGE_MADE ch (play_player pl) out) h2"
    by blast
  from processChallenge_truthful [OF assms, of now ch "snd (clearChallengeTimer (cs, h))"] pc
  have failed: "co_result out = FAILED"
    and scores: "\<forall>q. score (players h2 q)
        = (if q = ch then max 0 (score (players h ch) - CHALLENGE_PENALTY)
           else score (players h q))"
    by auto
  from res failed show "\<exists>out. mr_result res = Some out \<and> co_result out = FAILED"
    by simp
  from scores h' show "score (players h' ch) = max 0 (score (players h ch) - CHALLENGE_PENALTY)"
    by simp
  from scores h' other
  show "score (players h' (play_player pl)) = score (players h (play_player pl))"
    by simp
qed

theorem failed_challenge_penalty_witness:
  "play_claimedType truthful_play = Some (play_actualType truthful_play)
   \<and> score (players (addScore 0 1 heap0) 0) = 1
   \<and> (case processChallenge 200 0 truthful_play (addScore 0 1 heap0) of (r, h1) \<Rightarrow>
         (\<exists>out. r = Inr out \<and> co_result out = FAILED)
         \<and> score (players h1 0) = 0 \<and> score (players h1 1) = 0)
   \<and> (case processChallenge 200 0 truthful_play heap0 of (r, h1) \<Rightarrow>
         score (players h1 0) = 0 \<and> score (players h1 1) = 0)
   \<and> lastPlayedCard (fst truth_registered) = Some truthful_play
   \<and> (case makeChallenge 200 (Some 0) truth_registered of (r, cs', h') \<Rightarrow>
         (\<exists>res out. r = Inr res \<and> mr_success res \<and> mr_result res = Some out
                    \<and> co_result out = FAILED)
         \<and> score (players h' 0) = 0 \<and> score (players h' 1) = 0)"
proof -
  have truthful: "play_claimedType truthful_play = Some (play_actualType truthful_play)"
    by (simp add: truthful_play_def)
  have one: "score (players (addScore 0 1 heap0) 0) = 1"
    by (simp add: score_addScore heap0_scores)
  have ai: "score (players (addScore 0 1 heap0) 1) = 0"
    by (simp add: score_addScore heap0_scores)
  have pending: "lastPlayedCard (fst truth_registered) = Some truthful_play"
    by (simp add: truth_registered_eq)
  have "challengeable truthful_play" "0 \<noteq> play_player truthful_play"
    "play_claimedType truthful_play \<noteq> None"
    by (simp_all add: truthful_play_def)
  from makeChallenge_accepts [OF pending this, where now = 200 and h = "snd truth_registered"]
  obtain res cs' h' where
    made: "makeChallenge 200 (Some 0) (fst truth_registered, snd truth_registered) = (Inr res, cs', h')"
    and ok: "mr_success res"
    by blast
  have player: "play_player truthful_play = 1" by (simp add: truthful_play_def)
  have start: "score (players (snd truth_registered) q) = 0" for q
    by (simp add: truth_registered_eq heap0_scores)
  from failed_challenge_penalty [where now = 200 and ch = 0 and h = "addScore 0 1 heap0",
      OF truthful, THEN conjunct1]
  have first: "case processChallenge 200 0 truthful_play (addScore 0 1 heap0) of (r, h1) \<Rightarrow>
         (\<exists>out. r = Inr out \<and> co_result out = FAILED)
         \<and> score (players h1 0) = 0 \<and> score (players h1 1) = 0"
    by (auto simp: score_addScore heap0_scores CHALLENGE_PENALTY_def)
  from failed_challenge_penalty [where now = 200 and ch = 0 and h = heap0,
      OF truthful, THEN conjunct1]
  have second: "case processChallenge 200 0 truthful_play heap0 of (r, h1) \<Rightarrow>
         score (players h1 0) = 0 \<and> score (players h1 1) = 0"
    by (auto simp: heap0_scores CHALLENGE_PENALTY_def)
  from failed_challenge_penalty [where now = 200 and ch = 0
      and h = "snd truth_registered" and cs = "fst truth_registered" and res = res
      and cs' = cs' and h' = h', OF truthful, THEN conjunct2] pending made ok
  have third: "case makeChallenge 200 (Some 0) truth_registered of (r, cs', h') \<Rightarrow>
         (\<exists>res out. r = Inr res \<and> mr_success res \<and> mr_result res = Some out
                    \<and> co_result out = FAILED)
         \<and> score (players h' 0) = 0 \<and> score (players h' 1) = 0"
    by (auto simp: start player CHALLENGE_PENALTY_def)
  from truthful one first second pending third show ?thesis by blast
qed

text \<open>
  Claim C4. Let the pending play be a bluff: its claimed type is a card type other than
  its actual type. Then \<open>processChallenge\<close> returns the result \<open>SUCCESSFUL\<close> with
  \<open>wasBluff\<close> true, \<open>pointsChanged\<close> 0 and \<open>cardRevealed\<close> true, the challenged card's
  \<open>isRevealed\<close> is true afterwards, and no player's score has changed: neither the
  challenger's nor the defending player's. The same holds of every challenge of that
  play that \<open>makeChallenge\<close> accepts.
\<close>

theorem successful_challenge_reveals_without_points:
  assumes "play_claimedType pl = Some ct" and "ct \<noteq> play_actualType pl"
  shows "(case processChallenge now ch pl h of (r, h1) \<Rightarrow>
            (\<exists>out. r = Inr out \<and> co_result out = SUCCESSFUL \<and> co_wasBluff out
                   \<and> co_pointsChanged out = 0 \<and> co_cardRevealed out)
            \<and> isRevealed (cards h1 (play_card pl))
            \<and> score (players h1 ch) = score (players h ch)
            \<and> score (players h1 (play_player pl)) = score (players h (play_player pl))
            \<and> (\<forall>q. score (players h1 q) = score (players h q)))
       \<and> (lastPlayedCard cs = Some pl
            \<and> makeChallenge now (Some ch) (cs, h) = (Inr res, cs', h') \<and> mr_success res
          \<longrightarrow> (\<exists>out. mr_result res = Some out \<and> co_result out = SUCCESSFUL \<and> co_wasBluff out
                     \<and> co_pointsChanged out = 0)
              \<and> isRevealed (cards h' (play_card pl))
              \<and> score (players h' ch) = score (players h ch)
              \<and> score (players h' (play_player pl)) = score (players h (play_player pl)))"
proof (intro conjI impI)
  from processChallenge_bluff [OF assms, of now ch h]
  show "case processChallenge now ch pl h of (r, h1) \<Rightarrow>
            (\<exists>out. r = Inr out \<and> co_result out = SUCCESSFUL \<and> co_wasBluff out
                   \<and> co_pointsChanged out = 0 \<and> co_cardRevealed out)
            \<and> isRevealed (cards h1 (play_card pl))
            \<and> score (players h1 ch) = score (players h ch)
            \<and> score (players h1 (play_player pl)) = score (players h (play_player pl))
            \<and> (\<forall>q. score (players h1 q) = score (players h q))"
    by auto
next
  assume made: "lastPlayedCard cs = Some pl
      \<and> makeChallenge now (Some ch) (cs, h) = (Inr res, cs', h') \<and> mr_success res"
  then have pending: "lastPlayedCard cs = Some pl"
    and call: "makeChallenge now (Some ch) (cs, h) = (Inr res, cs', h')"
    and ok: "mr_success res"
    by simp_all
  from makeChallenge_success [OF pending call ok]
  obtain out h2 where
    pc: "processChallenge now ch pl (snd (clearChallengeTimer (cs, h))) = (Inr out, h2)"
    and res: "mr_result res = Some out"
    and h': "h' = emit (CHALLENGE_MADE ch (play_player pl) out) h2"
    by blast
  from processChallenge_bluff [OF assms, of now ch "snd (clearChallengeTimer (cs, h))"] pc
  have out: "co_result out = SUCCESSFUL" "co_wasBluff out" "co_pointsChanged out = 0"
    and revealed: "isRevealed (cards h2 (play_card pl))"
    and scores: "\<forall>q. score (players h2 q) = score (players h q)"
    by auto
  from res out
  show "\<exists>out. mr_result res = Some out \<and> co_result out = SUCCESSFUL \<and> co_wasBluff out
          \<and> co_pointsChanged out = 0"
    by simp
  from revealed h' show "isRevealed (cards h' (play_card pl))" by simp
  from scores h' show "score (players h' ch) = score (players h ch)" by simp
  from scores h' show "score (players h' (play_player pl)) = score (players h (play_player pl))"
    by simp
qed

theorem successful_challenge_reveals_without_points_witness:
  "play_claimedType bluff_play = Some paper \<and> paper \<noteq> play_actualType bluff_play
   \<and> \<not> isRevealed (cards heap0 0)
   \<and> (case processChallenge 200 0 bluff_play heap0 of (r, h') \<Rightarrow>
         (\<exists>out. r = Inr out \<and> co_result out = SUCCESSFUL \<and> co_wasBluff out
                \<and> co_pointsChanged out = 0)
         \<and> isRevealed (cards h' 0)
         \<and> score (players h' 0) = 0 \<and> score (players h' 1) = 0)
   \<and> lastPlayedCard (fst bluff_registered) = Some bluff_play
   \<and> (case makeChallenge 200 (Some 0) bluff_registered of (r, cs', h') \<Rightarrow>
         (\<exists>res out. r = Inr res \<and> mr_success res \<and> mr_result res = Some out
                    \<and> co_result out = SUCCESSFUL)
         \<and> isRevealed (cards h' 0)
         \<and> score (players h' 0) = 0 \<and> score (players h' 1) = 0)"
proof -
  have claimed: "play_claimedType bluff_play = Some paper"
    and differs: "paper \<noteq> play_actualType bluff_play"
    by (simp_all add: bluff_play_def)
  have hidden: "\<not> isRevealed (cards heap0 0)"
    by (simp add: heap0_def Card_new_def)
  have c: "play_card bluff_play = 0" and p: "play_player bluff_play = Suc 0"
    by (simp_all add: bluff_play_def)
  have pending: "lastPlayedCard (fst bluff_registered) = Some bluff_play"
    by (simp add: bluff_registered_eq)
  have "challengeable bluff_play" "0 \<noteq> play_player bluff_play"
    "play_claimedType bluff_play \<noteq> None"
    by (simp_all add: bluff_play_def)
  from makeChallenge_accepts [OF pending this, where now = 200 and h = "snd bluff_registered"]
  obtain res cs' h' where
    made: "makeChallenge 200 (Some 0) (fst bluff_registered, snd bluff_registered) = (Inr res, cs', h')"
    and ok: "mr_success res"
    by blast
  have start: "score (players (snd bluff_registered) q) = 0" for q
    by (simp add: bluff_registered_eq heap0_scores)
  from successful_challenge_reveals_without_points
    [where now = 200 and ch = 0 and h = heap0, OF claimed differs, THEN conjunct1]
  have first: "case processChallenge 200 0 bluff_play heap0 of (r, h') \<Rightarrow>
         (\<exists>out. r = Inr out \<and> co_result out = SUCCESSFUL \<and> co_wasBluff out
                \<and> co_pointsChanged out = 0)
         \<and> isRevealed (cards h' 0)
         \<and> score (players h' 0) = 0 \<and> score (players h' 1) = 0"
    by (auto simp: c p heap0_scores)
  from successful_challenge_reveals_without_points
    [where now = 200 and ch = 0 and h = "snd bluff_registered" and cs = "fst bluff_registered"
       and res = res and cs' = cs' and h' = h', OF claimed differs, THEN conjunct2]
    pending made ok
  have second: "case makeChallenge 200 (Some 0) bluff_registered of (r, cs', h') \<Rightarrow>
         (\<exists>res out. r = Inr res \<and> mr_success res \<and> mr_result res = Some out
                    \<and> co_result out = SUCCESSFUL)
         \<and> isRevealed (cards h' 0)
         \<and> score (players h' 0) = 0 \<and> score (players h' 1) = 0"
    by (auto simp: c p start)
  from claimed differs hidden first pending second show ?thesis by blast
qed

section \<open>At most one challenge per play\<close>

lemma makeChallenge_not_pending:
  assumes "\<not> play_pending cs"
  shows "makeChallenge now (Some ch) (cs, h) = (Inr no_play_failure, cs, h)"
  using assms by (cases "lastPlayedCard cs") (simp_all add: makeChallenge_def play_pending_def)

lemma makeChallenge_own_play:
  assumes "lastPlayedCard cs = Some pl" and "challengeable pl" and "ch = play_player pl"
  shows "makeChallenge now (Some ch) (cs, h) = (Inr self_challenge_failure, cs, h)"
  using assms by (simp add: makeChallenge_def)

lemma closeChallengeWindow_not_pending: "\<not> play_pending (fst (closeChallengeWindow (cs, h)))"
proof -
  obtain cs1 where cs1: "cs1 = (case lastPlayedCard cs of
                   None \<Rightarrow> cs
                 | Some pl \<Rightarrow> cs\<lparr>lastPlayedCard := Some (pl\<lparr>challengeable := False\<rparr>)\<rparr>)"
    by simp
  then have closed: "\<not> play_pending cs1"
    by (simp add: play_pending_def split: option.splits)
  obtain cs2 h1 where ct: "clearChallengeTimer (cs1, h) = (cs2, h1)"
    by (cases "clearChallengeTimer (cs1, h)")
  with lastPlayedCard_clearChallengeTimer [of cs1 h]
  have "lastPlayedCard cs2 = lastPlayedCard cs1" by simp
  with closed have "\<not> play_pending cs2" by (simp add: play_pending_def)
  moreover have "fst (closeChallengeWindow (cs, h)) = cs2"
    using ct cs1 by (simp add: closeChallengeWindow_def Let_def)
  ultimately show ?thesis by simp
qed

lemma timerFires_not_pending:
  assumes "t \<in> set (timers h) \<or> \<not> play_pending cs"
  shows "\<not> play_pending (fst (timerFires t (cs, h)))"
proof (cases "t \<in> set (timers h)")
  case True
  then show ?thesis
    using closeChallengeWindow_not_pending [of cs "h\<lparr>timers := removeAll t (timers h)\<rparr>"]
    by (simp add: timerFires_def)
next
  case False
  with assms show ?thesis by (simp add: timerFires_def)
qed

lemma makeChallenge_pending_after:
  assumes "makeChallenge now who (cs, h) = (r, cs', h')"
  shows "(play_pending cs' \<longrightarrow> play_pending cs)
       \<and> (\<forall>res. r = Inr res \<and> mr_success res \<longrightarrow> play_pending cs \<and> \<not> play_pending cs')"
proof (cases who)
  case None
  with assms show ?thesis by (auto simp add: makeChallenge_def)
next
  case (Some ch)
  show ?thesis
  proof (cases "play_pending cs")
    case False
    with assms Some makeChallenge_not_pending [of cs now ch h] show ?thesis
      by (auto simp add: no_play_failure_def)
  next
    case True
    then obtain pl where pl: "lastPlayedCard cs = Some pl" "challengeable pl"
      by (auto simp: play_pending_def split: option.splits)
    show ?thesis
    proof (intro conjI allI impI)
      show "play_pending cs" by (rule True)
    next
      fix res
      assume "r = Inr res \<and> mr_success res"
      show "play_pending cs" by (rule True)
    next
      fix res
      assume "r = Inr res \<and> mr_success res"
      with assms Some have "makeChallenge now (Some ch) (cs, h) = (Inr res, cs', h')" "mr_success res"
        by simp_all
      from makeChallenge_success [OF pl(1) this]
      show "\<not> play_pending cs'" by (simp add: play_pending_def)
    qed
  qed
qed

lemma apply_step_pending:
  shows "(play_pending (fst (snd (apply_step x s))) \<longrightarrow> play_pending (fst s))
       \<and> (fst (apply_step x s) \<longrightarrow>
            play_pending (fst s) \<and> \<not> play_pending (fst (snd (apply_step x s))))"
proof (cases s)
  case (Pair cs h)
  show ?thesis
  proof (cases x)
    case (MakeChallenge now who)
    obtain r cs' h' where mc: "makeChallenge now who (cs, h) = (r, cs', h')"
      by (cases "makeChallenge now who (cs, h)")
    from makeChallenge_pending_after [OF mc] mc Pair MakeChallenge show ?thesis
      by (cases r) auto
  next
    case CloseChallengeWindow
    with Pair closeChallengeWindow_not_pending [of cs h] show ?thesis by simp
  next
    case (TimerFires t)
    with Pair timerFires_not_pending [of t h cs] show ?thesis by auto
  qed
qed

lemma successes_bound: "successes xs s \<le> (if play_pending (fst s) then 1 else 0)"
proof (induction xs arbitrary: s)
  case Nil
  then show ?case by simp
next
  case (Cons x xs)
  from apply_step_pending [of x s] Cons.IH [of "snd (apply_step x s)"]
  show ?case by (auto split: if_splits)
qed

text \<open>
  Claim C5. \<open>makeChallenge\<close> returns the failure "No challengeable play available" and
  the challenge system and the store exactly as they were (so no score and no card has
  changed) when no challengeable play is pending, in particular after
  \<open>closeChallengeWindow\<close> has run, called directly or by the timer of the window. It
  returns the failure "Cannot challenge your own play", again without any change, when
  the challenger is the player of the pending play. Both failures have \<open>success: false\<close>.
  After a call that returned \<open>success: true\<close>, every further call fails, whoever
  makes it and whenever. And of any sequence of \<open>makeChallenge\<close> calls, window closures
  and timer callbacks on a state, at most one call succeeds.
\<close>

theorem makeChallenge_at_most_once:
  "(\<not> play_pending cs \<longrightarrow> makeChallenge now (Some ch) (cs, h) = (Inr no_play_failure, cs, h))
   \<and> makeChallenge now (Some ch) (closeChallengeWindow (cs, h))
       = (Inr no_play_failure, closeChallengeWindow (cs, h))
   \<and> (t \<in> set (timers h) \<longrightarrow>
        makeChallenge now (Some ch) (timerFires t (cs, h))
          = (Inr no_play_failure, timerFires t (cs, h)))
   \<and> (\<forall>pl. lastPlayedCard cs = Some pl \<and> challengeable pl \<and> ch = play_player pl \<longrightarrow>
        makeChallenge now (Some ch) (cs, h) = (Inr self_challenge_failure, cs, h))
   \<and> \<not> mr_success no_play_failure \<and> \<not> mr_success self_challenge_failure
   \<and> (\<forall>res s'. makeChallenge now (Some ch) (cs, h) = (Inr res, s') \<and> mr_success res \<longrightarrow>
        (\<forall>now' ch'. makeChallenge now' (Some ch') s' = (Inr no_play_failure, s')))
   \<and> successes steps (cs, h) \<le> 1"
proof (intro conjI impI allI)
  assume "\<not> play_pending cs"
  then show "makeChallenge now (Some ch) (cs, h) = (Inr no_play_failure, cs, h)"
    by (rule makeChallenge_not_pending)
next
  obtain cs1 h1 where c: "closeChallengeWindow (cs, h) = (cs1, h1)"
    by (cases "closeChallengeWindow (cs, h)")
  with closeChallengeWindow_not_pending [of cs h] have "\<not> play_pending cs1" by simp
  from makeChallenge_not_pending [OF this] c
  show "makeChallenge now (Some ch) (closeChallengeWindow (cs, h))
       = (Inr no_play_failure, closeChallengeWindow (cs, h))"
    by simp
next
  assume t: "t \<in> set (timers h)"
  obtain cs1 h1 where c: "timerFires t (cs, h) = (cs1, h1)"
    by (cases "timerFires t (cs, h)")
  with timerFires_not_pending [of t h cs] t have "\<not> play_pending cs1" by simp
  from makeChallenge_not_pending [OF this] c
  show "makeChallenge now (Some ch) (timerFires t (cs, h))
          = (Inr no_play_failure, timerFires t (cs, h))"
    by simp
next
  fix pl
  assume "lastPlayedCard cs = Some pl \<and> challengeable pl \<and> ch = play_player pl"
  then show "makeChallenge now (Some ch) (cs, h) = (Inr self_challenge_failure, cs, h)"
    by (simp add: makeChallenge_own_play)
next
  show "\<not> mr_success no_play_failure" by (simp add: no_play_failure_def)
  show "\<not> mr_success self_challenge_failure" by (simp add: self_challenge_failure_def)
next
  fix res s' now' ch'
  assume made: "makeChallenge now (Some ch) (cs, h) = (Inr res, s') \<and> mr_success res"
  obtain cs' h' where s': "s' = (cs', h')" by (cases s')
  from made s' makeChallenge_pending_after [of now "Some ch" cs h "Inr res" cs' h']
  have "\<not> play_pending cs'" by simp
  from makeChallenge_not_pending [OF this] s'
  show "makeChallenge now' (Some ch') s' = (Inr no_play_failure, s')" by simp
next
  from successes_bound [of steps "(cs, h)"] show "successes steps (cs, h) \<le> 1"
    by (simp split: if_splits)
qed

theorem makeChallenge_at_most_once_witness:
  "\<not> play_pending ChallengeSystem_new
   \<and> makeChallenge 200 (Some 0) (ChallengeSystem_new, heap0)
       = (Inr no_play_failure, ChallengeSystem_new, heap0)
   \<and> 1 \<in> set (timers (snd truth_registered))
   \<and> makeChallenge 200 (Some 0) (timerFires 1 truth_registered)
       = (Inr no_play_failure, timerFires 1 truth_registered)
   \<and> lastPlayedCard (fst truth_registered) = Some truthful_play
   \<and> challengeable truthful_play \<and> 1 = play_player truthful_play
   \<and> makeChallenge 200 (Some 1) truth_registered = (Inr self_challenge_failure, truth_registered)
   \<and> (case makeChallenge 200 (Some 0) truth_registered of (r, s') \<Rightarrow>
         (\<exists>res. r = Inr res \<and> mr_success res)
         \<and> makeChallenge 300 (Some 0) s' = (Inr no_play_failure, s')
         \<and> makeChallenge 300 (Some 2) s' = (Inr no_play_failure, s'))
   \<and> successes [MakeChallenge 200 (Some 1), MakeChallenge 200 (Some 0),
                 MakeChallenge 300 (Some 0), TimerFires 1, MakeChallenge 400 (Some 2)]
        truth_registered \<le> 1"
proof -
  have idle: "\<not> play_pending ChallengeSystem_new"
    by (simp add: play_pending_def ChallengeSystem_new_def)
  have timer: "1 \<in> set (timers (snd truth_registered))"
    by (simp add: truth_registered_eq)
  have pending: "lastPlayedCard (fst truth_registered) = Some truthful_play"
    by (simp add: truth_registered_eq)
  have own: "challengeable truthful_play" "1 = play_player truthful_play"
    by (simp_all add: truthful_play_def)
  have "0 \<noteq> play_player truthful_play" "play_claimedType truthful_play \<noteq> None"
    by (simp_all add: truthful_play_def)
  from makeChallenge_accepts [OF pending own(1) this, where now = 200 and h = "snd truth_registered"]
  obtain res cs' h' where
    made: "makeChallenge 200 (Some 0) (fst truth_registered, snd truth_registered) = (Inr res, cs', h')"
    and ok: "mr_success res"
    by blast
  note at_idle = makeChallenge_at_most_once
    [where cs = ChallengeSystem_new and h = heap0 and now = 200 and ch = 0]
  note by_self = makeChallenge_at_most_once
    [where cs = "fst truth_registered" and h = "snd truth_registered" and now = 200 and ch = 1]
  note by_other = makeChallenge_at_most_once
    [where cs = "fst truth_registered" and h = "snd truth_registered" and now = 200 and ch = 0
       and t = 1
       and steps = "[MakeChallenge 200 (Some 1), MakeChallenge 200 (Some 0),
                 MakeChallenge 300 (Some 0), TimerFires 1, MakeChallenge 400 (Some 2)]"]
  have c1: "makeChallenge 200 (Some 0) (ChallengeSystem_new, heap0)
       = (Inr no_play_failure, ChallengeSystem_new, heap0)"
    by (rule at_idle [THEN conjunct1, THEN mp, OF idle])
  have "makeChallenge 200 (Some 0) (timerFires 1 (fst truth_registered, snd truth_registered))
       = (Inr no_play_failure, timerFires 1 (fst truth_registered, snd truth_registered))"
    by (rule by_other [THEN conjunct2, THEN conjunct2, THEN conjunct1, THEN mp, OF timer])
  then have c2: "makeChallenge 200 (Some 0) (timerFires 1 truth_registered)
       = (Inr no_play_failure, timerFires 1 truth_registered)"
    by simp
  have "lastPlayedCard (fst truth_registered) = Some truthful_play \<and> challengeable truthful_play
      \<and> 1 = play_player truthful_play"
    using pending own by blast
  from by_self [THEN conjunct2, THEN conjunct2, THEN conjunct2, THEN conjunct1, THEN spec,
      THEN mp, OF this]
  have c3: "makeChallenge 200 (Some 1) truth_registered = (Inr self_challenge_failure, truth_registered)"
    by simp
  have "makeChallenge 200 (Some 0) (fst truth_registered, snd truth_registered)
      = (Inr res, (cs', h')) \<and> mr_success res"
    using made ok by simp
  from by_other [THEN conjunct2, THEN conjunct2, THEN conjunct2, THEN conjunct2, THEN conjunct2,
      THEN conjunct2, THEN conjunct1, THEN spec, THEN spec, THEN mp, OF this]
  have later: "makeChallenge now' (Some ch') (cs', h') = (Inr no_play_failure, cs', h')" for now' ch'
    by blast
  from made ok later [of 300 0] later [of 300 2]
  have c4: "case makeChallenge 200 (Some 0) truth_registered of (r, s') \<Rightarrow>
         (\<exists>res. r = Inr res \<and> mr_success res)
         \<and> makeChallenge 300 (Some 0) s' = (Inr no_play_failure, s')
         \<and> makeChallenge 300 (Some 2) s' = (Inr no_play_failure, s')"
    by simp
  from by_other [THEN conjunct2, THEN conjunct2, THEN conjunct2, THEN conjunct2, THEN conjunct2,
      THEN conjunct2, THEN conjunct2]
  have c5: "successes [MakeChallenge 200 (Some 1), MakeChallenge 200 (Some 0),
                 MakeChallenge 300 (Some 0), TimerFires 1, MakeChallenge 400 (Some 2)]
        truth_registered \<le> 1"
    by (simp only: prod.collapse)
  from idle c1 timer c2 pending own c3 c4 c5 show ?thesis by blast
qed

section \<open>Closing the window\<close>

text \<open>
  Claim C8, amended. Calling \<open>closeChallengeWindow\<close> a second time leaves the challenge
  system as the first call left it (no challengeable play pending, the timer field
  null), and the players, the cards and the pending timers as well; but every call emits
  one \<open>CHALLENGE_WINDOW_CLOSED\<close> notification, so the second call adds a second one,
  with the same payload, to those emitted.
\<close>

theorem closeChallengeWindow_twice:
  "(case closeChallengeWindow (cs, h) of (cs1, h1) \<Rightarrow>
      (case closeChallengeWindow (cs1, h1) of (cs2, h2) \<Rightarrow>
         cs2 = cs1 \<and> players h2 = players h1 \<and> cards h2 = cards h1
         \<and> timers h2 = timers h1 \<and> nextTimer h2 = nextTimer h1
         \<and> \<not> play_pending cs2 \<and> challengeTimer cs2 = None
         \<and> emitted h1 = emitted h @ [CHALLENGE_WINDOW_CLOSED (lastPlayedCard cs1)]
         \<and> emitted h2 = emitted h1 @ [CHALLENGE_WINDOW_CLOSED (lastPlayedCard cs1)]))"
  by (simp add: closeChallengeWindow_def clearChallengeTimer_def clearTimeout_def emit_def
      play_pending_def Let_def split: option.splits)

lemma closeChallengeWindow_truth_registered:
  "closeChallengeWindow truth_registered =
     (ChallengeSystem_new\<lparr>lastPlayedCard := Some (truthful_play\<lparr>challengeable := False\<rparr>),
                          challengeTimer := None\<rparr>,
      heap0\<lparr>emitted := [CHALLENGE_WINDOW_OPEN truthful_play 5000,
                          CHALLENGE_WINDOW_CLOSED (Some (truthful_play\<lparr>challengeable := False\<rparr>))],
             timers := [], nextTimer := 2\<rparr>)"
  by (simp add: truth_registered_eq closeChallengeWindow_def clearChallengeTimer_def
      clearTimeout_def emit_def ChallengeSystem_new_def Let_def)

text \<open>
  The claim as stated fails on the notifications: after a registered play, one call has
  emitted one \<open>CHALLENGE_WINDOW_CLOSED\<close>, two calls have emitted two, and the two end
  states differ.
\<close>

theorem closeChallengeWindow_twice_counterexample:
  "closeChallengeWindow (closeChallengeWindow truth_registered) \<noteq> closeChallengeWindow truth_registered
   \<and> emitted (snd (closeChallengeWindow truth_registered))
       = [CHALLENGE_WINDOW_OPEN truthful_play 5000,
          CHALLENGE_WINDOW_CLOSED (Some (truthful_play\<lparr>challengeable := False\<rparr>))]
   \<and> emitted (snd (closeChallengeWindow (closeChallengeWindow truth_registered)))
       = [CHALLENGE_WINDOW_OPEN truthful_play 5000,
          CHALLENGE_WINDOW_CLOSED (Some (truthful_play\<lparr>challengeable := False\<rparr>)),
          CHALLENGE_WINDOW_CLOSED (Some (truthful_play\<lparr>challengeable := False\<rparr>))]"
proof -
  have once: "emitted (snd (closeChallengeWindow truth_registered))
       = [CHALLENGE_WINDOW_OPEN truthful_play 5000,
          CHALLENGE_WINDOW_CLOSED (Some (truthful_play\<lparr>challengeable := False\<rparr>))]"
    by (simp add: closeChallengeWindow_truth_registered)
  have twice: "emitted (snd (closeChallengeWindow (closeChallengeWindow truth_registered)))
       = [CHALLENGE_WINDOW_OPEN truthful_play 5000,
          CHALLENGE_WINDOW_CLOSED (Some (truthful_play\<lparr>challengeable := False\<rparr>)),
          CHALLENGE_WINDOW_CLOSED (Some (truthful_play\<lparr>challengeable := False\<rparr>))]"
    unfolding closeChallengeWindow_truth_registered
    by (simp add: closeChallengeWindow_def clearChallengeTimer_def emit_def
        ChallengeSystem_new_def Let_def)
  have "closeChallengeWindow (closeChallengeWindow truth_registered) \<noteq> closeChallengeWindow truth_registered"
  proof
    assume "closeChallengeWindow (closeChallengeWindow truth_registered) = closeChallengeWindow truth_registered"
    then have "emitted (snd (closeChallengeWindow (closeChallengeWindow truth_registered)))
        = emitted (snd (closeChallengeWindow truth_registered))"
      by simp
    then show False unfolding once twice by simp
  qed
  with once twice show ?thesis by blast
qed

theorem closeChallengeWindow_twice_witness:
  "(case closeChallengeWindow truth_registered of (cs1, h1) \<Rightarrow>
      (case closeChallengeWindow (cs1, h1) of (cs2, h2) \<Rightarrow>
         cs2 = cs1 \<and> timers h2 = timers h1 \<and> \<not> play_pending cs2 \<and> challengeTimer cs2 = None
         \<and> emitted h2 = emitted h1 @
              [CHALLENGE_WINDOW_CLOSED (Some (truthful_play\<lparr>challengeable := False\<rparr>))]))"
  using closeChallengeWindow_twice
    [where cs = "fst truth_registered" and h = "snd truth_registered"]
  by (auto simp add: closeChallengeWindow_truth_registered split: prod.splits)

end
